theory Spec2Isabelle
  imports Main "HOL-Library.Word"
begin

unbundle bit_operations_syntax

section \<open>Enumerations and limits\<close>

text \<open>
  The enumerations \<open>mesa_debug_source\<close>, \<open>mesa_debug_type\<close> and
  \<open>mesa_debug_severity\<close> are declared in a header; \<open>errors.c\<close> uses their values as
  array indices, loop counters and shift amounts, and fixes their order through the
  tables \<open>debug_source_enums\<close>, \<open>debug_type_enums\<close> and \<open>debug_severity_enums\<close>
  (\<open>gl_enum_to_debug_severity\<close> returns the index into the table, and the number of
  entries for an unknown value such as \<open>GL_DONT_CARE\<close>). They are modelled by these
  indices.
\<close>

abbreviation MESA_DEBUG_SOURCE_API :: nat where "MESA_DEBUG_SOURCE_API \<equiv> 0"
abbreviation MESA_DEBUG_SOURCE_WINDOW_SYSTEM :: nat where "MESA_DEBUG_SOURCE_WINDOW_SYSTEM \<equiv> 1"
abbreviation MESA_DEBUG_SOURCE_SHADER_COMPILER :: nat where "MESA_DEBUG_SOURCE_SHADER_COMPILER \<equiv> 2"
abbreviation MESA_DEBUG_SOURCE_APPLICATION :: nat where "MESA_DEBUG_SOURCE_APPLICATION \<equiv> 4"
abbreviation MESA_DEBUG_SOURCE_OTHER :: nat where "MESA_DEBUG_SOURCE_OTHER \<equiv> 5"
abbreviation MESA_DEBUG_SOURCE_COUNT :: nat where "MESA_DEBUG_SOURCE_COUNT \<equiv> 6"

abbreviation MESA_DEBUG_TYPE_ERROR :: nat where "MESA_DEBUG_TYPE_ERROR \<equiv> 0"
abbreviation MESA_DEBUG_TYPE_DEPRECATED :: nat where "MESA_DEBUG_TYPE_DEPRECATED \<equiv> 1"
abbreviation MESA_DEBUG_TYPE_UNDEFINED :: nat where "MESA_DEBUG_TYPE_UNDEFINED \<equiv> 2"
abbreviation MESA_DEBUG_TYPE_PORTABILITY :: nat where "MESA_DEBUG_TYPE_PORTABILITY \<equiv> 3"
abbreviation MESA_DEBUG_TYPE_PERFORMANCE :: nat where "MESA_DEBUG_TYPE_PERFORMANCE \<equiv> 4"
abbreviation MESA_DEBUG_TYPE_OTHER :: nat where "MESA_DEBUG_TYPE_OTHER \<equiv> 5"
abbreviation MESA_DEBUG_TYPE_MARKER :: nat where "MESA_DEBUG_TYPE_MARKER \<equiv> 6"
abbreviation MESA_DEBUG_TYPE_COUNT :: nat where "MESA_DEBUG_TYPE_COUNT \<equiv> 9"

abbreviation MESA_DEBUG_SEVERITY_LOW :: nat where "MESA_DEBUG_SEVERITY_LOW \<equiv> 0"
abbreviation MESA_DEBUG_SEVERITY_MEDIUM :: nat where "MESA_DEBUG_SEVERITY_MEDIUM \<equiv> 1"
abbreviation MESA_DEBUG_SEVERITY_HIGH :: nat where "MESA_DEBUG_SEVERITY_HIGH \<equiv> 2"
abbreviation MESA_DEBUG_SEVERITY_COUNT :: nat where "MESA_DEBUG_SEVERITY_COUNT \<equiv> 4"

type_synonym GLuint = "32 word"
type_synonym GLbitfield = "32 word"

section \<open>Allocation\<close>

text \<open>
  \<open>malloc\<close> may fail. The outcomes of the calls still to come are a list, consumed one
  per call (\<open>True\<close>: the call returns memory); once the list is used up every call
  succeeds.
\<close>

type_synonym allocator = "bool list"

fun malloc :: "allocator \<Rightarrow> bool \<times> allocator" where
  "malloc [] = (True, [])"
| "malloc (b # bs) = (b, bs)"

section \<open>Namespaces\<close>

record gl_debug_element =
  ID :: GLuint
  State :: GLbitfield

text \<open>The list \<open>Elements\<close> is the linked list of the source, head first.\<close>

record gl_debug_namespace =
  Elements :: "gl_debug_element list"
  DefaultState :: GLbitfield

definition debug_namespace_init :: gl_debug_namespace where
  "debug_namespace_init =
     \<lparr>Elements = [],
      DefaultState = push_bit MESA_DEBUG_SEVERITY_HIGH 1 OR push_bit MESA_DEBUG_SEVERITY_MEDIUM 1\<rparr>"

text \<open>
  The loop of \<open>debug_namespace_copy\<close>: one \<open>malloc\<close> per element, appended at the tail
  of the destination. When a call fails the destination is cleared and nothing is
  returned.
\<close>

fun debug_namespace_copy_loop ::
  "gl_debug_element list \<Rightarrow> gl_debug_element list \<Rightarrow> allocator
     \<Rightarrow> gl_debug_element list option \<times> allocator" where
  "debug_namespace_copy_loop [] dst al = (Some dst, al)"
| "debug_namespace_copy_loop (e # es) dst al =
     (case malloc al of
        (False, al') \<Rightarrow> (None, al')
      | (True, al') \<Rightarrow>
          debug_namespace_copy_loop es (dst @ [\<lparr>ID = ID e, State = State e\<rparr>]) al')"

definition debug_namespace_copy ::
  "gl_debug_namespace \<Rightarrow> allocator \<Rightarrow> gl_debug_namespace option \<times> allocator" where
  "debug_namespace_copy src al =
     (case debug_namespace_copy_loop (Elements src) [] al of
        (None, al') \<Rightarrow> (None, al')
      | (Some els, al') \<Rightarrow> (Some \<lparr>Elements = els, DefaultState = DefaultState src\<rparr>, al'))"

text \<open>The position of the first element with the given id: the result of the search loop.\<close>

fun find_element :: "gl_debug_element list \<Rightarrow> GLuint \<Rightarrow> nat option" where
  "find_element [] i = None"
| "find_element (e # es) i =
     (if ID e = i then Some 0 else map_option Suc (find_element es i))"

definition remove_from_list :: "nat \<Rightarrow> 'a list \<Rightarrow> 'a list" where
  "remove_from_list n xs = take n xs @ drop (Suc n) xs"

text \<open>
  \<open>debug_namespace_set\<close> returns whether it succeeded, the namespace and the
  allocator. It allocates only for an id that has no element yet and whose new state
  differs from the default.
\<close>

definition debug_namespace_set ::
  "gl_debug_namespace \<Rightarrow> GLuint \<Rightarrow> bool \<Rightarrow> allocator
     \<Rightarrow> bool \<times> gl_debug_namespace \<times> allocator" where
  "debug_namespace_set ns i enabled al =
     (let state = (if enabled then push_bit MESA_DEBUG_SEVERITY_COUNT 1 - 1 else 0);
          elem = find_element (Elements ns) i
      in if DefaultState ns = state then
           (case elem of
              Some n \<Rightarrow> (True, ns\<lparr>Elements := remove_from_list n (Elements ns)\<rparr>, al)
            | None \<Rightarrow> (True, ns, al))
         else
           (case elem of
              None \<Rightarrow>
                (case malloc al of
                   (False, al') \<Rightarrow> (False, ns, al')
                 | (True, al') \<Rightarrow>
                     (True, ns\<lparr>Elements := Elements ns @ [\<lparr>ID = i, State = state\<rparr>]\<rparr>, al'))
            | Some n \<Rightarrow>
                (True, ns\<lparr>Elements := (Elements ns)[n := (Elements ns ! n)\<lparr>State := state\<rparr>]\<rparr>, al)))"

text \<open>
  The \<open>foreach_s\<close> loop of \<open>debug_namespace_set_all\<close>: every element gets the bit, and
  is unlinked when its state has become the (new) default. The variable \<open>mask\<close> of
  the source is \<open>msk\<close> here.
\<close>

fun debug_namespace_set_all_loop ::
  "GLbitfield \<Rightarrow> GLbitfield \<Rightarrow> GLbitfield \<Rightarrow> gl_debug_element list \<Rightarrow> gl_debug_element list" where
  "debug_namespace_set_all_loop msk val dflt [] = []"
| "debug_namespace_set_all_loop msk val dflt (e # es) =
     (let e' = e\<lparr>State := (State e AND NOT msk) OR val\<rparr>
      in if State e' = dflt then debug_namespace_set_all_loop msk val dflt es
         else e' # debug_namespace_set_all_loop msk val dflt es)"

definition debug_namespace_set_all ::
  "gl_debug_namespace \<Rightarrow> nat \<Rightarrow> bool \<Rightarrow> gl_debug_namespace" where
  "debug_namespace_set_all ns severity enabled =
     (if severity = MESA_DEBUG_SEVERITY_COUNT then
        \<lparr>Elements = [], DefaultState = (if enabled then push_bit severity 1 - 1 else 0)\<rparr>
      else
        (let msk = push_bit severity 1;
             val = (if enabled then msk else 0);
             dflt = (DefaultState ns AND NOT msk) OR val
         in \<lparr>Elements = debug_namespace_set_all_loop msk val dflt (Elements ns),
             DefaultState = dflt\<rparr>))"

definition debug_namespace_get :: "gl_debug_namespace \<Rightarrow> GLuint \<Rightarrow> nat \<Rightarrow> bool" where
  "debug_namespace_get ns i severity =
     (let state = (case find_element (Elements ns) i of
                     Some n \<Rightarrow> State (Elements ns ! n)
                   | None \<Rightarrow> DefaultState ns)
      in state AND push_bit severity 1 \<noteq> 0)"

section \<open>Limits, GL enumerants and the process\<close>

text \<open>
  The macros \<open>MAX_DEBUG_LOGGED_MESSAGES\<close>, \<open>MAX_DEBUG_GROUP_STACK_DEPTH\<close> and
  \<open>MAX_DEBUG_MESSAGE_LENGTH\<close> are defined in a configuration header. Every function
  that uses one of them takes the three values as its first argument.
\<close>

record limits =
  MAX_DEBUG_LOGGED_MESSAGES :: nat
  MAX_DEBUG_GROUP_STACK_DEPTH :: nat
  MAX_DEBUG_MESSAGE_LENGTH :: int

text \<open>
  The values of type \<open>GLenum\<close> that the file names. Their numbers come from the GL
  headers; all the code does with them is compare them, so they are constructors.
\<close>

datatype GLenum =
    GL_DEBUG_SOURCE_API | GL_DEBUG_SOURCE_WINDOW_SYSTEM | GL_DEBUG_SOURCE_SHADER_COMPILER
  | GL_DEBUG_SOURCE_THIRD_PARTY | GL_DEBUG_SOURCE_APPLICATION | GL_DEBUG_SOURCE_OTHER
  | GL_DEBUG_TYPE_ERROR | GL_DEBUG_TYPE_DEPRECATED_BEHAVIOR | GL_DEBUG_TYPE_UNDEFINED_BEHAVIOR
  | GL_DEBUG_TYPE_PORTABILITY | GL_DEBUG_TYPE_PERFORMANCE | GL_DEBUG_TYPE_OTHER
  | GL_DEBUG_TYPE_MARKER | GL_DEBUG_TYPE_PUSH_GROUP | GL_DEBUG_TYPE_POP_GROUP
  | GL_DEBUG_SEVERITY_LOW | GL_DEBUG_SEVERITY_MEDIUM | GL_DEBUG_SEVERITY_HIGH
  | GL_DEBUG_SEVERITY_NOTIFICATION
  | GL_DONT_CARE

datatype gl_error =
  GL_INVALID_ENUM | GL_INVALID_VALUE | GL_OUT_OF_MEMORY | GL_STACK_OVERFLOW | GL_STACK_UNDERFLOW

definition debug_source_enums :: "GLenum list" where
  "debug_source_enums =
     [GL_DEBUG_SOURCE_API, GL_DEBUG_SOURCE_WINDOW_SYSTEM, GL_DEBUG_SOURCE_SHADER_COMPILER,
      GL_DEBUG_SOURCE_THIRD_PARTY, GL_DEBUG_SOURCE_APPLICATION, GL_DEBUG_SOURCE_OTHER]"

definition debug_type_enums :: "GLenum list" where
  "debug_type_enums =
     [GL_DEBUG_TYPE_ERROR, GL_DEBUG_TYPE_DEPRECATED_BEHAVIOR, GL_DEBUG_TYPE_UNDEFINED_BEHAVIOR,
      GL_DEBUG_TYPE_PORTABILITY, GL_DEBUG_TYPE_PERFORMANCE, GL_DEBUG_TYPE_OTHER,
      GL_DEBUG_TYPE_MARKER, GL_DEBUG_TYPE_PUSH_GROUP, GL_DEBUG_TYPE_POP_GROUP]"

definition debug_severity_enums :: "GLenum list" where
  "debug_severity_enums =
     [GL_DEBUG_SEVERITY_LOW, GL_DEBUG_SEVERITY_MEDIUM, GL_DEBUG_SEVERITY_HIGH,
      GL_DEBUG_SEVERITY_NOTIFICATION]"





text \<open>
  Text is a list of bytes. \<open>strncpy\<close> and \<open>strlen\<close> stop at the first zero byte;
  \<open>strncpy\<close> fills the rest of its \<open>n\<close> bytes with zeros.
\<close>

abbreviation NUL :: char where "NUL \<equiv> CHR 0x00"

definition strlen :: "char list \<Rightarrow> nat" where
  "strlen s = length (takeWhile (\<lambda>c. c \<noteq> NUL) s)"

definition strncpy :: "char list \<Rightarrow> nat \<Rightarrow> char list" where
  "strncpy src n =
     (let s = takeWhile (\<lambda>c. c \<noteq> NUL) (take n src) in s @ replicate (n - length s) NUL)"

text \<open>
  The \<open>message\<close> pointer of a message: null, the address of the static array
  \<open>out_of_memory\<close>, or memory from \<open>malloc\<close> with its bytes.
\<close>

datatype message_ptr = NULL | out_of_memory | Heap "char list"

definition out_of_memory_chars :: "char list" where
  "out_of_memory_chars = ''Debugging error: out of memory'' @ [NUL]"

fun chars_of :: "message_ptr \<Rightarrow> char list" where
  "chars_of NULL = []"
| "chars_of out_of_memory = out_of_memory_chars"
| "chars_of (Heap s) = s"

record gl_debug_message =
  m_source :: nat
  m_type :: nat
  m_id :: GLuint
  m_severity :: nat
  m_length :: int
  m_message :: message_ptr

text \<open>One invocation of the application's callback, with the arguments it received.\<close>

record callback_call =
  c_source :: GLenum
  c_type :: GLenum
  c_id :: GLuint
  c_severity :: GLenum
  c_length :: int
  c_buf :: "char list"
  c_userParam :: nat

record gl_debug_namespaces =
  Namespaces :: "gl_debug_namespace list list"

type_synonym gl_debug_group = gl_debug_namespaces

text \<open>
  What lives outside a context: the results \<open>malloc\<close> will give, the two static
  counters, the pointers handed to \<open>free\<close> by \<open>debug_message_clear\<close>, the
  \<open>gl_debug_group\<close> objects on the heap by address (address 0 is the null pointer,
  \<open>group_next\<close> the next address \<open>malloc\<close> returns), and the callback invocations so
  far.
\<close>

record process =
  malloc_results :: allocator
  NextDynamicID :: GLuint
  oom_msg_id :: GLuint
  freed_text :: "message_ptr list"
  group_heap :: "nat \<Rightarrow> gl_debug_group option"
  group_next :: nat
  callback_calls :: "callback_call list"

definition debug_get_id :: "GLuint \<Rightarrow> GLuint \<Rightarrow> GLuint \<times> GLuint" where
  \<comment> \<open>the slot \<open>*id\<close> and \<open>NextDynamicID\<close>, before and after\<close>
  "debug_get_id slot next_id = (if slot = 0 then (next_id, next_id + 1) else (slot, next_id))"

definition debug_message_clear ::
  "gl_debug_message \<Rightarrow> process \<Rightarrow> gl_debug_message \<times> process" where
  "debug_message_clear msg p =
     (let p' = (if m_message msg \<noteq> out_of_memory
                then p\<lparr>freed_text := freed_text p @ [m_message msg]\<rparr> else p)
      in (msg\<lparr>m_message := NULL, m_length := 0\<rparr>, p'))"

definition debug_message_store ::
  "gl_debug_message \<Rightarrow> nat \<Rightarrow> nat \<Rightarrow> GLuint \<Rightarrow> nat \<Rightarrow> int \<Rightarrow> char list \<Rightarrow> process
     \<Rightarrow> gl_debug_message \<times> process" where
  "debug_message_store msg source type i severity len buf p =
     (case malloc (malloc_results p) of
        (True, al') \<Rightarrow>
          (msg\<lparr>m_source := source, m_type := type, m_id := i, m_severity := severity,
               m_length := len + 1,
               m_message := Heap (strncpy buf (nat len) @ [NUL])\<rparr>,
           p\<lparr>malloc_results := al'\<rparr>)
      | (False, al') \<Rightarrow>
          (let (slot, next_id) = debug_get_id (oom_msg_id p) (NextDynamicID p)
           in (msg\<lparr>m_source := MESA_DEBUG_SOURCE_OTHER, m_type := MESA_DEBUG_TYPE_ERROR,
                    m_id := slot, m_severity := MESA_DEBUG_SEVERITY_HIGH,
                    m_length := int (strlen out_of_memory_chars) + 1,
                    m_message := out_of_memory\<rparr>,
               p\<lparr>malloc_results := al', oom_msg_id := slot, NextDynamicID := next_id\<rparr>)))"

section \<open>The debug state\<close>

record gl_debug_log =
  Messages :: "gl_debug_message list"
  NextMessage :: nat
  NumMessages :: nat

record gl_debug_state =
  Callback :: nat
  CallbackData :: nat
  SyncOutput :: bool
  DebugOutput :: bool
  Groups :: "nat list"
  GroupMessages :: "gl_debug_message list"
  GroupStackDepth :: nat
  Log :: gl_debug_log

record gl_context =
  Debug :: "gl_debug_state option"

definition zero_message :: gl_debug_message where
  "zero_message =
     \<lparr>m_source = 0, m_type = 0, m_id = 0, m_severity = 0, m_length = 0, m_message = NULL\<rparr>"

definition malloc_group :: "process \<Rightarrow> nat \<times> process" where
  \<comment> \<open>\<open>malloc(sizeof(struct gl_debug_group))\<close>: the address, 0 when it fails\<close>
  "malloc_group p =
     (case malloc (malloc_results p) of
        (False, al') \<Rightarrow> (0, p\<lparr>malloc_results := al'\<rparr>)
      | (True, al') \<Rightarrow>
          (group_next p, p\<lparr>malloc_results := al', group_next := Suc (group_next p)\<rparr>))"

definition deref :: "process \<Rightarrow> nat \<Rightarrow> gl_debug_group" where
  "deref p a = the (group_heap p a)"

definition debug_create :: "limits \<Rightarrow> process \<Rightarrow> gl_debug_state option \<times> process" where
  "debug_create lim p =
     (case malloc (malloc_results p) of
        (False, al') \<Rightarrow> (None, p\<lparr>malloc_results := al'\<rparr>)
      | (True, al') \<Rightarrow>
          (case malloc_group (p\<lparr>malloc_results := al'\<rparr>) of (a, p1) \<Rightarrow>
             if a = 0 then (None, p1)
             else
               (Some \<lparr>Callback = 0, CallbackData = 0, SyncOutput = False, DebugOutput = False,
                      Groups = (replicate (MAX_DEBUG_GROUP_STACK_DEPTH lim) 0)[0 := a],
                      GroupMessages = replicate (MAX_DEBUG_GROUP_STACK_DEPTH lim) zero_message,
                      GroupStackDepth = 0,
                      Log = \<lparr>Messages = replicate (MAX_DEBUG_LOGGED_MESSAGES lim) zero_message,
                             NextMessage = 0, NumMessages = 0\<rparr>\<rparr>,
                p1\<lparr>group_heap := (group_heap p1)
                      (a \<mapsto> \<lparr>Namespaces = replicate MESA_DEBUG_SOURCE_COUNT
                                  (replicate MESA_DEBUG_TYPE_COUNT debug_namespace_init)\<rparr>)\<rparr>)))"

definition debug_is_group_read_only :: "gl_debug_state \<Rightarrow> bool" where
  "debug_is_group_read_only debug =
     (let gstack = GroupStackDepth debug
      in gstack > 0 \<and> Groups debug ! gstack = Groups debug ! (gstack - 1))"

text \<open>
  The two nested loops of \<open>debug_make_group_writable\<close> copy the namespaces in the order
  \<open>s\<close>, then \<open>t\<close>. The first copy that fails ends them: the error path clears what
  was copied and the result is \<open>None\<close>.
\<close>

fun copy_namespaces_t ::
  "gl_debug_namespace list \<Rightarrow> allocator \<Rightarrow> gl_debug_namespace list option \<times> allocator" where
  "copy_namespaces_t [] al = (Some [], al)"
| "copy_namespaces_t (ns # row) al =
     (case debug_namespace_copy ns al of
        (None, al') \<Rightarrow> (None, al')
      | (Some c, al') \<Rightarrow>
          (case copy_namespaces_t row al' of
             (None, al'') \<Rightarrow> (None, al'')
           | (Some cs, al'') \<Rightarrow> (Some (c # cs), al'')))"

fun copy_namespaces_s ::
  "gl_debug_namespace list list \<Rightarrow> allocator
     \<Rightarrow> gl_debug_namespace list list option \<times> allocator" where
  "copy_namespaces_s [] al = (Some [], al)"
| "copy_namespaces_s (row # rows) al =
     (case copy_namespaces_t row al of
        (None, al') \<Rightarrow> (None, al')
      | (Some c, al') \<Rightarrow>
          (case copy_namespaces_s rows al' of
             (None, al'') \<Rightarrow> (None, al'')
           | (Some cs, al'') \<Rightarrow> (Some (c # cs), al'')))"

definition debug_make_group_writable ::
  "gl_debug_state \<Rightarrow> process \<Rightarrow> bool \<times> gl_debug_state \<times> process" where
  "debug_make_group_writable debug p =
     (let gstack = GroupStackDepth debug;
          src = deref p (Groups debug ! gstack)
      in if \<not> debug_is_group_read_only debug then (True, debug, p)
         else
           (case malloc_group p of (dst, p1) \<Rightarrow>
              if dst = 0 then (False, debug, p1)
              else
                (case copy_namespaces_s (Namespaces src) (malloc_results p1) of
                   (None, al') \<Rightarrow> (False, debug, p1\<lparr>malloc_results := al'\<rparr>)
                 | (Some nss, al') \<Rightarrow>
                     (True, debug\<lparr>Groups := (Groups debug)[gstack := dst]\<rparr>,
                      p1\<lparr>malloc_results := al',
                         group_heap := (group_heap p1)(dst \<mapsto> \<lparr>Namespaces = nss\<rparr>)\<rparr>))))"


text \<open>Writing the namespace \<open>Namespaces[s][t]\<close> of the group at an address.\<close>

definition store_namespace :: "process \<Rightarrow> nat \<Rightarrow> nat \<Rightarrow> nat \<Rightarrow> gl_debug_namespace \<Rightarrow> process" where
  "store_namespace p a s t ns =
     (let g = deref p a
      in p\<lparr>group_heap := (group_heap p)
             (a \<mapsto> g\<lparr>Namespaces := (Namespaces g)[s := (Namespaces g ! s)[t := ns]]\<rparr>)\<rparr>)"

text \<open>
  \<open>debug_set_message_enable\<close> and \<open>debug_set_message_enable_all\<close> call
  \<open>debug_make_group_writable\<close> and do not look at what it returns.
\<close>

definition debug_set_message_enable ::
  "gl_debug_state \<Rightarrow> nat \<Rightarrow> nat \<Rightarrow> GLuint \<Rightarrow> bool \<Rightarrow> process \<Rightarrow> gl_debug_state \<times> process" where
  "debug_set_message_enable debug source type i enabled p =
     (let gstack = GroupStackDepth debug
      in case debug_make_group_writable debug p of (_, debug1, p1) \<Rightarrow>
           (let a = Groups debug1 ! gstack;
                ns = Namespaces (deref p1 a) ! source ! type
            in case debug_namespace_set ns i enabled (malloc_results p1) of (_, ns', al') \<Rightarrow>
                 (debug1, store_namespace (p1\<lparr>malloc_results := al'\<rparr>) a source type ns')))"

definition debug_set_message_enable_all ::
  "gl_debug_state \<Rightarrow> nat \<Rightarrow> nat \<Rightarrow> nat \<Rightarrow> bool \<Rightarrow> process \<Rightarrow> gl_debug_state \<times> process" where
  "debug_set_message_enable_all debug source type severity enabled p =
     (let gstack = GroupStackDepth debug;
          (source', smax) = (if source = MESA_DEBUG_SOURCE_COUNT
                             then (0, MESA_DEBUG_SOURCE_COUNT) else (source, source + 1));
          (type', tmax) = (if type = MESA_DEBUG_TYPE_COUNT
                           then (0, MESA_DEBUG_TYPE_COUNT) else (type, type + 1))
      in case debug_make_group_writable debug p of (_, debug1, p1) \<Rightarrow>
           (let a = Groups debug1 ! gstack
            in (debug1,
                fold (\<lambda>s q. fold (\<lambda>t q'.
                        store_namespace q' a s t
                          (debug_namespace_set_all (Namespaces (deref q' a) ! s ! t) severity enabled))
                      [type' ..< tmax] q)
                  [source' ..< smax] p1)))"

definition debug_is_message_enabled ::
  "process \<Rightarrow> gl_debug_state \<Rightarrow> nat \<Rightarrow> nat \<Rightarrow> GLuint \<Rightarrow> nat \<Rightarrow> bool" where
  "debug_is_message_enabled p debug source type i severity =
     (let gstack = GroupStackDepth debug;
          grp = deref p (Groups debug ! gstack);
          nspace = Namespaces grp ! source ! type
      in if \<not> DebugOutput debug then False
         else debug_namespace_get nspace i severity)"

section \<open>The message log\<close>

definition debug_log_message ::
  "limits \<Rightarrow> gl_debug_state \<Rightarrow> nat \<Rightarrow> nat \<Rightarrow> GLuint \<Rightarrow> nat \<Rightarrow> int \<Rightarrow> char list \<Rightarrow> process
     \<Rightarrow> gl_debug_state \<times> process" where
  "debug_log_message lim debug source type i severity len buf p =
     (let lg = Log debug
      in if NumMessages lg = MAX_DEBUG_LOGGED_MESSAGES lim then (debug, p)
         else
           (let nextEmpty = (NextMessage lg + NumMessages lg) mod MAX_DEBUG_LOGGED_MESSAGES lim
            in case debug_message_store (Messages lg ! nextEmpty) source type i severity len buf p
               of (slot, p') \<Rightarrow>
                 (debug\<lparr>Log := lg\<lparr>Messages := (Messages lg)[nextEmpty := slot],
                                   NumMessages := NumMessages lg + 1\<rparr>\<rparr>, p')))"

definition debug_fetch_message :: "gl_debug_state \<Rightarrow> gl_debug_message option" where
  "debug_fetch_message debug =
     (let lg = Log debug
      in if NumMessages lg \<noteq> 0 then Some (Messages lg ! NextMessage lg) else None)"

fun debug_delete_messages_loop ::
  "limits \<Rightarrow> nat \<Rightarrow> gl_debug_log \<Rightarrow> process \<Rightarrow> gl_debug_log \<times> process" where
  "debug_delete_messages_loop lim 0 lg p = (lg, p)"
| "debug_delete_messages_loop lim (Suc n) lg p =
     (case debug_message_clear (Messages lg ! NextMessage lg) p of (msg, p') \<Rightarrow>
        debug_delete_messages_loop lim n
          (lg\<lparr>Messages := (Messages lg)[NextMessage lg := msg],
              NumMessages := NumMessages lg - 1,
              NextMessage := (NextMessage lg + 1) mod MAX_DEBUG_LOGGED_MESSAGES lim\<rparr>) p')"

definition debug_delete_messages ::
  "limits \<Rightarrow> gl_debug_state \<Rightarrow> nat \<Rightarrow> process \<Rightarrow> gl_debug_state \<times> process" where
  "debug_delete_messages lim debug count p =
     (let lg = Log debug;
          count' = (if count > NumMessages lg then NumMessages lg else count)
      in case debug_delete_messages_loop lim count' lg p of (lg', p') \<Rightarrow>
           (debug\<lparr>Log := lg'\<rparr>, p'))"

section \<open>The group stack\<close>


definition debug_push_group :: "gl_debug_state \<Rightarrow> gl_debug_state" where
  "debug_push_group debug =
     (let gstack = GroupStackDepth debug
      in debug\<lparr>Groups := (Groups debug)[gstack + 1 := Groups debug ! gstack],
               GroupStackDepth := gstack + 1\<rparr>)"


section \<open>The entry points\<close>

text \<open>
  In the entry points \<open>debug\<close> points to the object \<open>ctx->Debug\<close> that \<open>log_msg\<close>
  updates: after a call of \<open>log_msg\<close> the model reads it back from the context.
\<close>

text \<open>
  \<open>_mesa_error\<close> records a GL error in the context. An entry point that raises one
  returns it as \<open>Inl\<close>; what \<open>_mesa_error\<close> does besides (printing, and logging a
  message of its own) is not part of the model, and the theorems below are about the
  calls that raise no error.
\<close>

definition mesa_get_debug_state ::
  "limits \<Rightarrow> gl_context \<Rightarrow> process \<Rightarrow> gl_debug_state option \<times> gl_context \<times> process" where
  "mesa_get_debug_state lim ctx p =
     (case Debug ctx of
        Some debug \<Rightarrow> (Some debug, ctx, p)
      | None \<Rightarrow>
          (case debug_create lim p of (d, p') \<Rightarrow> (d, ctx\<lparr>Debug := d\<rparr>, p')))"



text \<open>
  The output arrays of \<open>glGetDebugMessageLog\<close>: \<open>None\<close> for a null pointer, otherwise
  what has been written through the pointer so far.
\<close>

record log_buffers =
  out_sources :: "GLenum list option"
  out_types :: "GLenum list option"
  out_ids :: "GLuint list option"
  out_severities :: "GLenum list option"
  out_lengths :: "int list option"
  out_messageLog :: "char list option"

definition put :: "'a list option \<Rightarrow> 'a \<Rightarrow> 'a list option" where
  \<comment> \<open>\<open>if (ptr) *ptr++ = x\<close>\<close>
  "put buf x = (case buf of None \<Rightarrow> None | Some xs \<Rightarrow> Some (xs @ [x]))"

text \<open>
  The loop of \<open>_mesa_GetDebugMessageLog\<close>; the first argument counts the iterations
  that are left (\<open>count - ret\<close>).
\<close>

fun GetDebugMessageLog_loop ::
  "limits \<Rightarrow> nat \<Rightarrow> nat \<Rightarrow> int \<Rightarrow> log_buffers \<Rightarrow> gl_debug_state \<Rightarrow> process
     \<Rightarrow> nat \<times> log_buffers \<times> gl_debug_state \<times> process" where
  "GetDebugMessageLog_loop lim 0 ret logSize bufs debug p = (ret, bufs, debug, p)"
| "GetDebugMessageLog_loop lim (Suc n) ret logSize bufs debug p =
     (case debug_fetch_message debug of
        None \<Rightarrow> (ret, bufs, debug, p)
      | Some msg \<Rightarrow>
          if logSize < m_length msg \<and> out_messageLog bufs \<noteq> None then (ret, bufs, debug, p)
          else
            (let (text_out, logSize') =
                   (case out_messageLog bufs of
                      Some written \<Rightarrow>
                        (Some (written @ strncpy (chars_of (m_message msg)) (nat (m_length msg))),
                         logSize - m_length msg)
                    | None \<Rightarrow> (None, logSize));
                 bufs' = bufs\<lparr>out_messageLog := text_out,
                              out_lengths := put (out_lengths bufs) (m_length msg),
                              out_severities :=
                                put (out_severities bufs) (debug_severity_enums ! m_severity msg),
                              out_sources := put (out_sources bufs) (debug_source_enums ! m_source msg),
                              out_types := put (out_types bufs) (debug_type_enums ! m_type msg),
                              out_ids := put (out_ids bufs) (m_id msg)\<rparr>
             in case debug_delete_messages lim debug 1 p of (debug', p') \<Rightarrow>
                  GetDebugMessageLog_loop lim n (Suc ret) logSize' bufs' debug' p'))"

definition mesa_GetDebugMessageLog ::
  "limits \<Rightarrow> nat \<Rightarrow> int \<Rightarrow> log_buffers \<Rightarrow> gl_context \<Rightarrow> process
     \<Rightarrow> gl_error + (nat \<times> log_buffers \<times> gl_context \<times> process)" where
  "mesa_GetDebugMessageLog lim count logSize bufs ctx p =
     (let logSize1 = (if out_messageLog bufs = None then 0 else logSize)
      in if logSize1 < 0 then Inl GL_INVALID_VALUE
         else
           (case mesa_get_debug_state lim ctx p of
              (None, ctx', p') \<Rightarrow> Inl GL_OUT_OF_MEMORY
            | (Some debug, ctx', p') \<Rightarrow>
                (case GetDebugMessageLog_loop lim count 0 logSize1 bufs debug p' of
                   (ret, bufs', debug', p'') \<Rightarrow>
                     Inr (ret, bufs', ctx'\<lparr>Debug := Some debug'\<rparr>, p''))))"



section \<open>Sequences of calls on one namespace\<close>

text \<open>
  The calls a namespace receives: \<open>debug_namespace_set\<close>, \<open>debug_namespace_set_all\<close>
  and \<open>debug_namespace_copy\<close> (after which the copy is the namespace looked at; a
  failed call leaves the namespace as it was). \<open>do_calls\<close> runs them on the namespace
  that \<open>debug_namespace_init\<close> gives.
\<close>

datatype namespace_call = Call_set GLuint bool | Call_set_all nat bool | Call_copy

fun do_call ::
  "namespace_call \<Rightarrow> gl_debug_namespace \<times> allocator \<Rightarrow> gl_debug_namespace \<times> allocator" where
  "do_call (Call_set i enabled) (ns, al) =
     (case debug_namespace_set ns i enabled al of (_, ns', al') \<Rightarrow> (ns', al'))"
| "do_call (Call_set_all severity enabled) (ns, al) =
     (debug_namespace_set_all ns severity enabled, al)"
| "do_call Call_copy (ns, al) =
     (case debug_namespace_copy ns al of (None, al') \<Rightarrow> (ns, al') | (Some dst, al') \<Rightarrow> (dst, al'))"

definition do_calls :: "namespace_call list \<Rightarrow> allocator \<Rightarrow> gl_debug_namespace \<times> allocator" where
  "do_calls calls al = fold do_call calls (debug_namespace_init, al)"

definition overrides_differ :: "gl_debug_namespace \<Rightarrow> bool" where
  "overrides_differ ns = (\<forall>e \<in> set (Elements ns). State e \<noteq> DefaultState ns)"

definition ids_distinct :: "gl_debug_namespace \<Rightarrow> bool" where
  "ids_distinct ns = distinct (map ID (Elements ns))"

definition set_state :: "bool \<Rightarrow> GLbitfield" where
  \<comment> \<open>the local \<open>state\<close> of \<open>debug_namespace_set\<close>\<close>
  "set_state enabled = (if enabled then push_bit MESA_DEBUG_SEVERITY_COUNT 1 - 1 else 0)"

fun ids_of_call :: "namespace_call \<Rightarrow> GLuint set" where
  "ids_of_call (Call_set i enabled) = {i}"
| "ids_of_call _ = {}"

text \<open>The expression \<open>(x & ~mask) | val\<close> of \<open>debug_namespace_set_all\<close>.\<close>

definition set_severity_bit :: "nat \<Rightarrow> bool \<Rightarrow> GLbitfield \<Rightarrow> GLbitfield" where
  "set_severity_bit severity enabled w =
     (w AND NOT (push_bit severity 1)) OR (if enabled then push_bit severity 1 else 0)"

section \<open>The log as a queue\<close>

text \<open>
  The array \<open>Messages\<close> has \<open>MAX_DEBUG_LOGGED_MESSAGES\<close> entries, \<open>NextMessage\<close> is an
  index into it and \<open>NumMessages\<close> is at most its size. \<open>log_contents\<close> lists the
  messages the log holds, oldest first.
\<close>

definition wf_log :: "limits \<Rightarrow> gl_debug_log \<Rightarrow> bool" where
  "wf_log lim lg \<longleftrightarrow>
     length (Messages lg) = MAX_DEBUG_LOGGED_MESSAGES lim \<and>
     NextMessage lg < MAX_DEBUG_LOGGED_MESSAGES lim \<and>
     NumMessages lg \<le> MAX_DEBUG_LOGGED_MESSAGES lim"

definition log_contents :: "limits \<Rightarrow> gl_debug_log \<Rightarrow> gl_debug_message list" where
  "log_contents lim lg =
     map (\<lambda>k. Messages lg ! ((NextMessage lg + k) mod MAX_DEBUG_LOGGED_MESSAGES lim))
       [0 ..< NumMessages lg]"

text \<open>
  The arguments of one call of \<open>debug_log_message\<close>, the message that
  \<open>debug_message_store\<close> makes of them when \<open>malloc\<close> succeeds, a sequence of such
  calls, and a sequence of drains of one message each (\<open>debug_fetch_message\<close>, then
  \<open>debug_delete_messages\<close> with count 1) that collects what it fetched.
\<close>

record message_args =
  a_source :: nat
  a_type :: nat
  a_id :: GLuint
  a_severity :: nat
  a_len :: int
  a_buf :: "char list"

definition stored :: "message_args \<Rightarrow> gl_debug_message" where
  "stored a =
     \<lparr>m_source = a_source a, m_type = a_type a, m_id = a_id a, m_severity = a_severity a,
      m_length = a_len a + 1, m_message = Heap (strncpy (a_buf a) (nat (a_len a)) @ [NUL])\<rparr>"

fun log_messages ::
  "limits \<Rightarrow> gl_debug_state \<Rightarrow> message_args list \<Rightarrow> process \<Rightarrow> gl_debug_state \<times> process" where
  "log_messages lim debug [] p = (debug, p)"
| "log_messages lim debug (a # as) p =
     (case debug_log_message lim debug (a_source a) (a_type a) (a_id a) (a_severity a)
             (a_len a) (a_buf a) p of
        (debug', p') \<Rightarrow> log_messages lim debug' as p')"

fun fetch_messages :: "limits \<Rightarrow> nat \<Rightarrow> gl_debug_state \<Rightarrow> process \<Rightarrow> gl_debug_message list" where
  "fetch_messages lim 0 debug p = []"
| "fetch_messages lim (Suc n) debug p =
     (case debug_fetch_message debug of
        None \<Rightarrow> []
      | Some msg \<Rightarrow>
          (case debug_delete_messages lim debug 1 p of
             (debug', p') \<Rightarrow> msg # fetch_messages lim n debug' p'))"

definition malloc_succeeds :: "process \<Rightarrow> bool" where
  "malloc_succeeds p = (set (malloc_results p) \<subseteq> {True})"

section \<open>A concrete context\<close>

text \<open>
  Limits (those of Mesa's configuration header), the process at its start, and the
  debug state and process that \<open>debug_create\<close> then gives.
\<close>

definition example_limits :: limits where
  "example_limits =
     \<lparr>MAX_DEBUG_LOGGED_MESSAGES = 10, MAX_DEBUG_GROUP_STACK_DEPTH = 64,
      MAX_DEBUG_MESSAGE_LENGTH = 4096\<rparr>"

definition initial_process :: process where
  "initial_process =
     \<lparr>malloc_results = [], NextDynamicID = 1, oom_msg_id = 0, freed_text = [],
      group_heap = Map.empty, group_next = 1, callback_calls = []\<rparr>"

definition initial_group :: gl_debug_group where
  "initial_group =
     \<lparr>Namespaces = replicate MESA_DEBUG_SOURCE_COUNT
        (replicate MESA_DEBUG_TYPE_COUNT debug_namespace_init)\<rparr>"

definition example_debug :: gl_debug_state where
  "example_debug =
     \<lparr>Callback = 0, CallbackData = 0, SyncOutput = False, DebugOutput = False,
      Groups = (replicate 64 0)[0 := 1],
      GroupMessages = replicate 64 zero_message,
      GroupStackDepth = 0,
      Log = \<lparr>Messages = replicate 10 zero_message, NextMessage = 0, NumMessages = 0\<rparr>\<rparr>"

definition example_process :: process where
  "example_process = initial_process\<lparr>group_heap := [1 \<mapsto> initial_group], group_next := 2\<rparr>"

definition message_numbered :: "GLuint \<Rightarrow> message_args" where
  "message_numbered i =
     \<lparr>a_source = MESA_DEBUG_SOURCE_APPLICATION, a_type = MESA_DEBUG_TYPE_OTHER, a_id = i,
      a_severity = MESA_DEBUG_SEVERITY_HIGH, a_len = 1, a_buf = ''x''\<rparr>"

section \<open>What a drain delivers\<close>

text \<open>
  The rule of the interface for a drain into a text buffer: messages are taken oldest
  first, up to \<open>count\<close> of them, while the stored length of the next one is at most the
  room that is left; the first one that does not fit ends the drain.
\<close>

fun drain_fit :: "nat \<Rightarrow> int \<Rightarrow> gl_debug_message list \<Rightarrow> nat" where
  "drain_fit 0 room ms = 0"
| "drain_fit (Suc n) room [] = 0"
| "drain_fit (Suc n) room (m # ms) =
     (if m_length m \<le> room then Suc (drain_fit n (room - m_length m) ms) else 0)"

text \<open>
  The number of messages a drain takes: without a text buffer the lengths play no
  part.
\<close>

definition drained :: "nat \<Rightarrow> int \<Rightarrow> log_buffers \<Rightarrow> gl_debug_message list \<Rightarrow> nat" where
  "drained count logSize bufs ms =
     (if out_messageLog bufs = None then min count (length ms) else drain_fit count logSize ms)"

definition append_out :: "'a list option \<Rightarrow> 'a list \<Rightarrow> 'a list option" where
  "append_out buf xs = map_option (\<lambda>ys. ys @ xs) buf"

definition message_chars :: "gl_debug_message \<Rightarrow> char list" where
  \<comment> \<open>the bytes that \<open>strncpy(messageLog, msg->message, msg->length)\<close> writes\<close>
  "message_chars m = strncpy (chars_of (m_message m)) (nat (m_length m))"

text \<open>The output arrays after the messages \<open>ms\<close> have been written to them.\<close>

definition deliver :: "gl_debug_message list \<Rightarrow> log_buffers \<Rightarrow> log_buffers" where
  "deliver ms bufs =
     \<lparr>out_sources = append_out (out_sources bufs) (map (\<lambda>m. debug_source_enums ! m_source m) ms),
      out_types = append_out (out_types bufs) (map (\<lambda>m. debug_type_enums ! m_type m) ms),
      out_ids = append_out (out_ids bufs) (map m_id ms),
      out_severities =
        append_out (out_severities bufs) (map (\<lambda>m. debug_severity_enums ! m_severity m) ms),
      out_lengths = append_out (out_lengths bufs) (map m_length ms),
      out_messageLog = append_out (out_messageLog bufs) (concat (map message_chars ms))\<rparr>"

text \<open>
  A log that holds three messages, of stored lengths 5, 10 and 3, and output arrays
  with and without a buffer for the text.
\<close>

definition example_messages :: "message_args list" where
  "example_messages =
     [\<lparr>a_source = MESA_DEBUG_SOURCE_APPLICATION, a_type = MESA_DEBUG_TYPE_OTHER, a_id = 1,
       a_severity = MESA_DEBUG_SEVERITY_HIGH, a_len = 4, a_buf = ''abcd''\<rparr>,
      \<lparr>a_source = MESA_DEBUG_SOURCE_APPLICATION, a_type = MESA_DEBUG_TYPE_OTHER, a_id = 2,
       a_severity = MESA_DEBUG_SEVERITY_HIGH, a_len = 9, a_buf = ''abcdefghi''\<rparr>,
      \<lparr>a_source = MESA_DEBUG_SOURCE_APPLICATION, a_type = MESA_DEBUG_TYPE_OTHER, a_id = 3,
       a_severity = MESA_DEBUG_SEVERITY_HIGH, a_len = 2, a_buf = ''ab''\<rparr>]"

definition example_logged :: gl_debug_state where
  "example_logged = fst (log_messages example_limits example_debug example_messages example_process)"

definition example_logged_process :: process where
  "example_logged_process =
     snd (log_messages example_limits example_debug example_messages example_process)"

definition text_buffers :: log_buffers where
  "text_buffers =
     \<lparr>out_sources = Some [], out_types = Some [], out_ids = Some [], out_severities = Some [],
      out_lengths = Some [], out_messageLog = Some []\<rparr>"

definition no_text_buffers :: log_buffers where
  "no_text_buffers =
     \<lparr>out_sources = Some [], out_types = Some [], out_ids = Some [], out_severities = Some [],
      out_lengths = Some [], out_messageLog = None\<rparr>"

section \<open>The out-of-memory message\<close>

text \<open>The message that \<open>debug_message_store\<close> leaves when \<open>malloc\<close> fails, with its id.\<close>

definition sentinel_message :: "GLuint \<Rightarrow> gl_debug_message" where
  "sentinel_message i =
     \<lparr>m_source = MESA_DEBUG_SOURCE_OTHER, m_type = MESA_DEBUG_TYPE_ERROR, m_id = i,
      m_severity = MESA_DEBUG_SEVERITY_HIGH, m_length = 31, m_message = out_of_memory\<rparr>"

text \<open>
  \<open>NextDynamicID\<close> after \<open>k\<close> calls of \<open>debug_get_id\<close>, each on a slot that holds 0,
  as \<open>_mesa_gl_debug\<close> and \<open>_mesa_shader_debug\<close> make for a caller that passes a fresh
  slot.
\<close>

fun fresh_ids :: "nat \<Rightarrow> GLuint \<Rightarrow> GLuint" where
  "fresh_ids 0 next_id = next_id"
| "fresh_ids (Suc k) next_id = fresh_ids k (snd (debug_get_id 0 next_id))"

definition malloc_fails :: "process \<Rightarrow> bool" where
  "malloc_fails p = (\<not> fst (malloc (malloc_results p)))"

text \<open>
  A process in which \<open>debug_get_id\<close> has handed out \<open>2^32 - 1\<close> ids, so that the
  counter is back at 0, and in which the next two calls of \<open>malloc\<close> fail; and two
  messages logged in it, one after the other.
\<close>

definition wrapped_process :: process where
  "wrapped_process =
     example_process\<lparr>NextDynamicID := fresh_ids 4294967295 (NextDynamicID example_process),
                     malloc_results := [False, False]\<rparr>"

definition first_oom :: "gl_debug_state \<times> process" where
  "first_oom =
     debug_log_message example_limits example_debug MESA_DEBUG_SOURCE_API MESA_DEBUG_TYPE_OTHER 5
       MESA_DEBUG_SEVERITY_HIGH 1 ''x'' wrapped_process"

definition second_oom :: "gl_debug_state \<times> process" where
  "second_oom =
     debug_log_message example_limits (fst first_oom) MESA_DEBUG_SOURCE_API MESA_DEBUG_TYPE_OTHER 6
       MESA_DEBUG_SEVERITY_HIGH 1 ''y'' (snd first_oom)"

text \<open>The process after \<open>debug_create\<close> when the next \<open>malloc\<close> fails.\<close>

definition failing_process :: process where
  "failing_process = example_process\<lparr>malloc_results := [False]\<rparr>"

section \<open>A pushed group whose copy fails\<close>

text \<open>
  The debug state after \<open>debug_push_group\<close> on the state that \<open>debug_create\<close> gives:
  the slots 0 and 1 of \<open>Groups\<close> hold the same address.
\<close>

definition pushed_debug :: gl_debug_state where
  "pushed_debug = debug_push_group example_debug"

text \<open>The message state that the slot below the top sees: the group at depth - 1.\<close>

definition get_below :: "process \<Rightarrow> gl_debug_state \<Rightarrow> nat \<Rightarrow> nat \<Rightarrow> GLuint \<Rightarrow> nat \<Rightarrow> bool" where
  "get_below p debug source type i severity =
     debug_namespace_get
       (Namespaces (deref p (Groups debug ! (GroupStackDepth debug - 1))) ! source ! type)
       i severity"

section \<open>Switching debug output on and registering a callback\<close>

text \<open>
  The two parameters \<open>_mesa_set_debug_state_int\<close> accepts; any other value runs into its
  assertion, so the type has no third value.
\<close>

datatype debug_pname = GL_DEBUG_OUTPUT | GL_DEBUG_OUTPUT_SYNCHRONOUS_ARB

definition mesa_set_debug_state_int ::
  "limits \<Rightarrow> gl_context \<Rightarrow> debug_pname \<Rightarrow> int \<Rightarrow> process \<Rightarrow> bool \<times> gl_context \<times> process" where
  "mesa_set_debug_state_int lim ctx pname val p =
     (case mesa_get_debug_state lim ctx p of
        (None, ctx', p') \<Rightarrow> (False, ctx', p')
      | (Some debug, ctx', p') \<Rightarrow>
          (case pname of
             GL_DEBUG_OUTPUT \<Rightarrow>
               (True, ctx'\<lparr>Debug := Some (debug\<lparr>DebugOutput := (val \<noteq> 0)\<rparr>)\<rparr>, p')
           | GL_DEBUG_OUTPUT_SYNCHRONOUS_ARB \<Rightarrow>
               (True, ctx'\<lparr>Debug := Some (debug\<lparr>SyncOutput := (val \<noteq> 0)\<rparr>)\<rparr>, p')))"

definition mesa_DebugMessageCallback ::
  "limits \<Rightarrow> nat \<Rightarrow> nat \<Rightarrow> gl_context \<Rightarrow> process \<Rightarrow> gl_context \<times> process" where
  "mesa_DebugMessageCallback lim callback userParam ctx p =
     (case mesa_get_debug_state lim ctx p of
        (None, ctx', p') \<Rightarrow> (ctx', p')
      | (Some debug, ctx', p') \<Rightarrow>
          (ctx'\<lparr>Debug := Some (debug\<lparr>Callback := callback, CallbackData := userParam\<rparr>)\<rparr>, p'))"

section \<open>A push followed by a pop\<close>


text \<open>
  A context whose debug state is the one \<open>debug_create\<close> gives, with debug output
  switched on and the callback at address 1 registered.
\<close>

definition callback_debug :: gl_debug_state where
  "callback_debug = example_debug\<lparr>DebugOutput := True, Callback := 1, CallbackData := 0\<rparr>"







section \<open>Properties of namespaces\<close>

lemma find_element_None: "find_element es i = None \<longleftrightarrow> i \<notin> ID ` set es"
  by (induction es) auto

lemma find_element_Some:
  "find_element es i = Some n \<Longrightarrow> n < length es \<and> ID (es ! n) = i \<and> (\<forall>m<n. ID (es ! m) \<noteq> i)"
proof (induction es arbitrary: n)
  case Nil
  then show ?case by simp
next
  case (Cons e es)
  show ?case
  proof (cases "ID e = i")
    case True
    with Cons.prems show ?thesis by simp
  next
    case False
    with Cons.prems obtain k where k: "find_element es i = Some k" "n = Suc k"
      by auto
    from Cons.IH [OF k(1)] False k(2) show ?thesis
      by (auto simp: less_Suc_eq_0_disj)
  qed
qed

lemma set_all_loop_eq:
  "debug_namespace_set_all_loop msk val dflt es =
     filter (\<lambda>e. State e \<noteq> dflt) (map (\<lambda>e. e\<lparr>State := (State e AND NOT msk) OR val\<rparr>) es)"
  by (induction es) (auto simp: Let_def)

lemma with_bit: "bit (((w :: 32 word) AND NOT (push_bit s 1)) OR (if en then push_bit s 1 else 0)) n
   \<longleftrightarrow> (if n = s \<and> s < 32 then en else bit w n)"
  by (auto simp: bit_simps dest: bit_imp_le_length)

lemma all_bits: "push_bit 4 1 - 1 = (mask 4 :: 32 word)"
  by (simp add: mask_eq_exp_minus_1)

lemma element_eta: "\<lparr>ID = ID a, State = State a\<rparr> = (a :: gl_debug_element)"
  by (cases a) simp

lemma copy_loop_ok:
  "debug_namespace_copy_loop es dst al = (Some r, al') \<Longrightarrow> r = dst @ es"
  proof (induction es arbitrary: dst al)
  case Nil
  then show ?case by simp
next
  case (Cons e es)
  from Cons.prems obtain al1 where
    "debug_namespace_copy_loop es (dst @ [e]) al1 = (Some r, al')"
    by (auto simp: element_eta split: prod.splits bool.splits)
  from Cons.IH [OF this] show ?case by simp
qed

lemma debug_namespace_copy_Some:
  "debug_namespace_copy src al = (Some dst, al') \<Longrightarrow> dst = src"
  by (auto simp: debug_namespace_copy_def dest!: copy_loop_ok split: prod.splits option.splits)

lemma set_in_remove: "x \<in> set (remove_from_list n xs) \<Longrightarrow> x \<in> set xs"
  by (auto simp: remove_from_list_def dest: in_set_takeD in_set_dropD)

lemma overrides_differ_set:
  assumes "overrides_differ ns" "debug_namespace_set ns i enabled al = (ok, ns', al')"
  shows "overrides_differ ns'"
  using assms
  by (auto simp: overrides_differ_def debug_namespace_set_def Let_def 
      dest!: set_in_remove set_update_subset_insert [THEN subsetD]
      split: option.splits if_splits prod.splits bool.splits)

lemma overrides_differ_set_all: "overrides_differ (debug_namespace_set_all ns severity enabled)"
  by (auto simp: overrides_differ_def debug_namespace_set_all_def Let_def set_all_loop_eq)

lemma overrides_differ_call:
  "overrides_differ ns \<Longrightarrow> do_call c (ns, al) = (ns', al') \<Longrightarrow> overrides_differ ns'"
  by (cases c) (auto simp: overrides_differ_set_all dest: overrides_differ_set debug_namespace_copy_Some split: prod.splits option.splits)

lemma overrides_differ_fold:
  "overrides_differ (fst s) \<Longrightarrow> overrides_differ (fst (fold do_call calls s))"
proof (induction calls arbitrary: s)
  case Nil
  then show ?case by simp
next
  case (Cons c calls)
  obtain ns al where s: "s = (ns, al)" by (cases s)
  obtain ns' al' where c: "do_call c (ns, al) = (ns', al')" by (cases "do_call c (ns, al)")
  from Cons.prems s have "overrides_differ ns" by simp
  from overrides_differ_call [OF this c] have "overrides_differ (fst (ns', al'))" by simp
  from Cons.IH [OF this] show ?case by (simp add: s c)
qed

lemma set_remove_subset: "set (remove_from_list n xs) \<subseteq> set xs"
  by (rule subsetI) (rule set_in_remove)

lemma remove_from_list_Cons:
  "remove_from_list 0 (x # xs) = xs"
  "remove_from_list (Suc n) (x # xs) = x # remove_from_list n xs"
  by (simp_all add: remove_from_list_def)

lemma map_remove: "map f (remove_from_list n xs) = remove_from_list n (map f xs)"
  unfolding remove_from_list_def by (simp only: map_append take_map drop_map)

lemma distinct_remove: "distinct xs \<Longrightarrow> distinct (remove_from_list n xs)"
proof (induction xs arbitrary: n)
  case Nil
  then show ?case by (simp add: remove_from_list_def)
next
  case (Cons x xs)
  then show ?case
    using set_remove_subset [of _ xs]
    by (cases n) (auto simp: remove_from_list_Cons)
qed

lemma removed_not_in:
  "distinct xs \<Longrightarrow> n < length xs \<Longrightarrow> xs ! n \<notin> set (remove_from_list n xs)"
proof (induction xs arbitrary: n)
  case Nil
  then show ?case by simp
next
  case (Cons x xs)
  then show ?case
    using set_remove_subset [of _ xs]
    by (cases n) (auto simp: remove_from_list_Cons)
qed

lemma map_ID_update: "n < length es \<Longrightarrow> map ID (es[n := (es ! n)\<lparr>State := s\<rparr>]) = map ID es"
  by (simp add: map_update list_update_same_conv)

lemma find_element_cong: "map ID es = map ID es' \<Longrightarrow> find_element es i = find_element es' i"
proof (induction es arbitrary: es')
  case Nil
  then show ?case by simp
next
  case (Cons e es)
  then obtain e' es'' where "es' = e' # es''" "ID e = ID e'" "map ID es = map ID es''"
    by (cases es') auto
  with Cons.IH [of es''] show ?case by simp
qed

lemma debug_namespace_set_cases:
  assumes "debug_namespace_set ns i enabled al = (ok, ns', al')"
  obtains
    (removed) n where "find_element (Elements ns) i = Some n" "DefaultState ns = set_state enabled"
      "ns' = ns\<lparr>Elements := remove_from_list n (Elements ns)\<rparr>" "ok"
  | (absent) "find_element (Elements ns) i = None" "DefaultState ns = set_state enabled"
      "ns' = ns" "ok"
  | (failed) "find_element (Elements ns) i = None" "DefaultState ns \<noteq> set_state enabled"
      "ns' = ns" "\<not> ok"
  | (added) "find_element (Elements ns) i = None" "DefaultState ns \<noteq> set_state enabled"
      "ns' = ns\<lparr>Elements := Elements ns @ [\<lparr>ID = i, State = set_state enabled\<rparr>]\<rparr>" "ok"
  | (updated) n where "find_element (Elements ns) i = Some n" "DefaultState ns \<noteq> set_state enabled"
      "ns' = ns\<lparr>Elements := (Elements ns)[n := (Elements ns ! n)\<lparr>State := set_state enabled\<rparr>]\<rparr>" "ok"
proof (cases "find_element (Elements ns) i")
  case None
  show ?thesis
  proof (cases "DefaultState ns = set_state enabled")
    case True
    with None assms have "ns' = ns" "ok"
      by (simp_all add: debug_namespace_set_def set_state_def Let_def)
    with None True show ?thesis by (rule absent)
  next
    case False
    show ?thesis
    proof (cases "fst (malloc al)")
      case True
      with None False assms
      have "ns' = ns\<lparr>Elements := Elements ns @ [\<lparr>ID = i, State = set_state enabled\<rparr>]\<rparr>" "ok"
        by (auto simp add: debug_namespace_set_def set_state_def Let_def split: prod.splits)
      with None False show ?thesis by (rule added)
    next
      case no: False
      with None False assms have "ns' = ns" "\<not> ok"
        by (simp_all add: debug_namespace_set_def set_state_def Let_def split: prod.splits)
      with None False show ?thesis by (rule failed)
    qed
  qed
next
  case (Some n)
  show ?thesis
  proof (cases "DefaultState ns = set_state enabled")
    case True
    with Some assms have "ns' = ns\<lparr>Elements := remove_from_list n (Elements ns)\<rparr>" "ok"
      by (simp_all add: debug_namespace_set_def set_state_def Let_def)
    with Some True show ?thesis by (rule removed)
  next
    case False
    with Some assms
    have "ns' = ns\<lparr>Elements := (Elements ns)[n := (Elements ns ! n)\<lparr>State := set_state enabled\<rparr>]\<rparr>" "ok"
      by (simp_all add: debug_namespace_set_def set_state_def Let_def)
    with Some False show ?thesis by (rule updated)
  qed
qed

lemma ids_distinct_set:
  assumes "ids_distinct ns" "debug_namespace_set ns i enabled al = (ok, ns', al')"
  shows "ids_distinct ns'"
  using assms(2)
proof (cases rule: debug_namespace_set_cases)
  case (removed n)
  with assms(1) show ?thesis by (simp add: ids_distinct_def map_remove distinct_remove)
next
  case absent
  with assms(1) show ?thesis by simp
next
  case failed
  with assms(1) show ?thesis by simp
next
  case added
  with assms(1) show ?thesis by (simp add: ids_distinct_def find_element_None)
next
  case (updated n)
  from find_element_Some [OF updated(1)] have "n < length (Elements ns)" by simp
  with updated assms(1) show ?thesis by (simp add: ids_distinct_def map_ID_update)
qed

lemma ids_subset_set:
  assumes "debug_namespace_set ns i enabled al = (ok, ns', al')"
  shows "set (map ID (Elements ns')) \<subseteq> insert i (set (map ID (Elements ns)))"
  using assms
proof (cases rule: debug_namespace_set_cases)
  case (removed n)
  then show ?thesis using set_remove_subset [of n "Elements ns"] by auto
next
  case absent
  then show ?thesis by auto
next
  case failed
  then show ?thesis by auto
next
  case added
  then show ?thesis by auto
next
  case (updated n)
  from find_element_Some [OF updated(1)] have "n < length (Elements ns)" by simp
  with updated have "map ID (Elements ns') = map ID (Elements ns)"
    by (simp add: map_ID_update)
  then show ?thesis by (metis subset_insertI)
qed

lemma set_all_loop_ids:
  "set (map ID (debug_namespace_set_all_loop msk val dflt es)) \<subseteq> set (map ID es)"
  by (induction es) (auto simp: Let_def)

lemma set_all_loop_distinct:
  "distinct (map ID es) \<Longrightarrow> distinct (map ID (debug_namespace_set_all_loop msk val dflt es))"
proof (induction es)
  case Nil
  then show ?case by simp
next
  case (Cons e es)
  then show ?case
    using set_all_loop_ids [of msk val dflt es] by (auto simp: Let_def)
qed

lemma set_all_Elements_subset:
  "set (map ID (Elements (debug_namespace_set_all ns severity enabled))) \<subseteq> set (map ID (Elements ns))"
  using set_all_loop_ids by (simp add: debug_namespace_set_all_def Let_def)

lemma ids_distinct_set_all:
  "ids_distinct ns \<Longrightarrow> ids_distinct (debug_namespace_set_all ns severity enabled)"
  by (simp add: ids_distinct_def debug_namespace_set_all_def Let_def set_all_loop_distinct)

text \<open>
  Claim C7. In every namespace reached from \<open>debug_namespace_init\<close> by any sequence
  of \<open>debug_namespace_set\<close>, \<open>debug_namespace_set_all\<close> and \<open>debug_namespace_copy\<close>
  calls, whatever \<open>malloc\<close> answers, no element has a state equal to the default state
  of the namespace.
\<close>

theorem overrides_never_equal_default: "overrides_differ (fst (do_calls calls al))"
  unfolding do_calls_def
  by (rule overrides_differ_fold) (simp add: overrides_differ_def debug_namespace_init_def)

lemma do_calls_example:
  "do_calls [Call_set 7 False, Call_set_all MESA_DEBUG_SEVERITY_LOW True, Call_copy] [] =
     (\<lparr>Elements = [\<lparr>ID = 7, State = 1\<rparr>], DefaultState = 7\<rparr>, [])"
  by (simp add: do_calls_def debug_namespace_init_def debug_namespace_set_def
      debug_namespace_set_all_def debug_namespace_copy_def)

theorem overrides_never_equal_default_witness:
  "Elements (fst (do_calls [Call_set 7 False, Call_set_all MESA_DEBUG_SEVERITY_LOW True, Call_copy] []))
     = [\<lparr>ID = 7, State = 1\<rparr>]
   \<and> overrides_differ
        (fst (do_calls [Call_set 7 False, Call_set_all MESA_DEBUG_SEVERITY_LOW True, Call_copy] []))"
  using overrides_never_equal_default
    [of "[Call_set 7 False, Call_set_all MESA_DEBUG_SEVERITY_LOW True, Call_copy]" "[]"]
  by (simp add: do_calls_example)

lemma get_bit: "debug_namespace_get ns i severity =
   bit (case find_element (Elements ns) i of Some n \<Rightarrow> State (Elements ns ! n) | None \<Rightarrow> DefaultState ns) severity"
  by (simp add: debug_namespace_get_def Let_def bit_iff_and_push_bit_not_eq_0)

lemma bit_set_state: "severity < MESA_DEBUG_SEVERITY_COUNT \<Longrightarrow> bit (set_state enabled) severity = enabled"
proof -
  have "set_state True = mask 4" "set_state False = 0"
    by (simp_all add: set_state_def mask_eq_exp_minus_1)
  then show "severity < MESA_DEBUG_SEVERITY_COUNT \<Longrightarrow> ?thesis"
    by (cases enabled) (simp_all add: bit_mask_iff)
qed

lemma find_element_removed:
  assumes "distinct (map ID es)" "find_element es i = Some n"
  shows "find_element (remove_from_list n es) i = None"
proof -
  from find_element_Some [OF assms(2)] have n: "n < length es" "ID (es ! n) = i" by simp_all
  have "(map ID es) ! n \<notin> set (remove_from_list n (map ID es))"
    using assms(1) n(1) by (intro removed_not_in) simp_all
  with n show ?thesis
    by (simp add: find_element_None map_remove [symmetric])
qed

lemma find_element_append:
  "find_element es i = None \<Longrightarrow> find_element (es @ [e]) i = (if ID e = i then Some (length es) else None)"
  by (induction es) (auto split: if_splits)

lemma get_after_set:
  assumes "ids_distinct ns" "debug_namespace_set ns i enabled al = (True, ns', al')"
    "severity < MESA_DEBUG_SEVERITY_COUNT"
  shows "debug_namespace_get ns' i severity = enabled"
  using assms(2)
proof (cases rule: debug_namespace_set_cases)
  case (removed n)
  from assms(1) removed(1) have "find_element (remove_from_list n (Elements ns)) i = None"
    unfolding ids_distinct_def by (rule find_element_removed)
  with removed assms(3) show ?thesis by (simp add: get_bit bit_set_state)
next
  case absent
  with assms(3) show ?thesis by (simp add: get_bit bit_set_state)
next
  case failed
  then show ?thesis by simp
next
  case added
  with assms(3) show ?thesis by (simp add: get_bit find_element_append bit_set_state)
next
  case (updated n)
  from find_element_Some [OF updated(1)] have n: "n < length (Elements ns)" by simp
  then have "find_element ((Elements ns)[n := (Elements ns ! n)\<lparr>State := set_state enabled\<rparr>]) i
      = find_element (Elements ns) i"
    by (intro find_element_cong) (simp add: map_ID_update)
  with updated n assms(3) show ?thesis by (simp add: get_bit bit_set_state)
qed

lemma ids_distinct_call:
  "ids_distinct ns \<Longrightarrow> do_call c (ns, al) = (ns', al') \<Longrightarrow> ids_distinct ns'"
  by (cases c)
     (auto simp: ids_distinct_set_all dest: ids_distinct_set debug_namespace_copy_Some
           split: prod.splits option.splits)

lemma ids_distinct_fold:
  "ids_distinct (fst s) \<Longrightarrow> ids_distinct (fst (fold do_call calls s))"
proof (induction calls arbitrary: s)
  case Nil
  then show ?case by simp
next
  case (Cons c calls)
  obtain ns al where s: "s = (ns, al)" by (cases s)
  obtain ns' al' where c: "do_call c (ns, al) = (ns', al')" by (cases "do_call c (ns, al)")
  from Cons.prems s have "ids_distinct ns" by simp
  from ids_distinct_call [OF this c] have "ids_distinct (fst (ns', al'))" by simp
  from Cons.IH [OF this] show ?case by (simp add: s c)
qed

lemma ids_call:
  assumes "do_call c (ns, al) = (ns', al')"
  shows "ID ` set (Elements ns') \<subseteq> ID ` set (Elements ns) \<union> ids_of_call c"
proof (cases c)
  case (Call_set i enabled)
  with assms obtain ok where "debug_namespace_set ns i enabled al = (ok, ns', al')"
    by (auto split: prod.splits)
  from ids_subset_set [OF this] have "ID ` set (Elements ns') \<subseteq> insert i (ID ` set (Elements ns))"
    by simp
  with Call_set show ?thesis by auto
next
  case (Call_set_all severity enabled)
  with assms have "ns' = debug_namespace_set_all ns severity enabled" by simp
  with set_all_Elements_subset [of ns severity enabled]
  have "ID ` set (Elements ns') \<subseteq> ID ` set (Elements ns)" by simp
  then show ?thesis by blast
next
  case Call_copy
  with assms have "ns' = ns"
    by (auto dest: debug_namespace_copy_Some split: prod.splits option.splits)
  then show ?thesis by simp
qed

lemma ids_fold:
  "ID ` set (Elements (fst (fold do_call calls s)))
     \<subseteq> ID ` set (Elements (fst s)) \<union> (\<Union>c \<in> set calls. ids_of_call c)"
proof (induction calls arbitrary: s)
  case Nil
  then show ?case by simp
next
  case (Cons c calls)
  define s' where "s' = do_call c s"
  define A where "A = ID ` set (Elements (fst (fold do_call calls s')))"
  define B where "B = ID ` set (Elements (fst s'))"
  define U where "U = (\<Union>c \<in> set calls. ids_of_call c)"
  define C where "C = ID ` set (Elements (fst s))"
  have "do_call c (fst s, snd s) = (fst s', snd s')"
    by (simp add: s'_def)
  from ids_call [OF this] have b: "B \<subseteq> C \<union> ids_of_call c"
    by (simp only: B_def C_def)
  have a: "A \<subseteq> B \<union> U"
    unfolding A_def B_def U_def by (rule Cons.IH)
  from a b have "A \<subseteq> C \<union> (ids_of_call c \<union> U)"
    by blast
  then show ?case
    by (simp add: A_def C_def U_def s'_def)
qed


text \<open>
  Claim C8. Let a namespace be reached from \<open>debug_namespace_init\<close> by any sequence of
  calls. For a severity below \<open>MESA_DEBUG_SEVERITY_COUNT\<close>: right after a call
  \<open>debug_namespace_set ns i enabled\<close> that returns true, \<open>debug_namespace_get\<close> of
  \<open>i\<close> is \<open>enabled\<close>; and for an id that no call of the sequence has set,
  \<open>debug_namespace_get\<close> is the bit of \<open>DefaultState\<close> at the severity.
\<close>

theorem get_after_set_and_get_unset:
  assumes "do_calls calls al = (ns, al')" and "severity < MESA_DEBUG_SEVERITY_COUNT"
  shows "(debug_namespace_set ns i enabled al0 = (True, ns', al1)
            \<longrightarrow> debug_namespace_get ns' i severity = enabled)
       \<and> ((\<forall>en. Call_set i en \<notin> set calls)
            \<longrightarrow> debug_namespace_get ns i severity = bit (DefaultState ns) severity)"
proof (intro conjI impI)
  assume set: "debug_namespace_set ns i enabled al0 = (True, ns', al1)"
  have "ids_distinct ns"
    using ids_distinct_fold [of "(debug_namespace_init, al)" calls] assms(1)
    by (simp add: do_calls_def ids_distinct_def debug_namespace_init_def)
  from get_after_set [OF this set assms(2)]
  show "debug_namespace_get ns' i severity = enabled" .
next
  assume never: "\<forall>en. Call_set i en \<notin> set calls"
  have "i \<notin> (\<Union>c \<in> set calls. ids_of_call c)"
  proof
    assume "i \<in> (\<Union>c \<in> set calls. ids_of_call c)"
    then obtain c where c: "c \<in> set calls" "i \<in> ids_of_call c" by blast
    from c(2) obtain en where "c = Call_set i en" by (cases c) auto
    with c never show False by blast
  qed
  moreover have "fst (fold do_call calls (debug_namespace_init, al)) = ns"
    using assms(1) by (simp add: do_calls_def)
  with ids_fold [of calls "(debug_namespace_init, al)"]
  have "ID ` set (Elements ns) \<subseteq> ID ` set (Elements debug_namespace_init)
          \<union> (\<Union>c \<in> set calls. ids_of_call c)"
    by simp
  moreover have "Elements debug_namespace_init = []"
    by (simp add: debug_namespace_init_def)
  ultimately have "i \<notin> ID ` set (Elements ns)"
    by auto
  then have "find_element (Elements ns) i = None" by (simp add: find_element_None)
  then show "debug_namespace_get ns i severity = bit (DefaultState ns) severity"
    by (simp add: get_bit)
qed


theorem get_after_set_and_get_unset_witness:
  "do_calls [Call_set 7 False] [] = (\<lparr>Elements = [\<lparr>ID = 7, State = 0\<rparr>], DefaultState = 6\<rparr>, [])
   \<and> MESA_DEBUG_SEVERITY_HIGH < MESA_DEBUG_SEVERITY_COUNT
   \<and> debug_namespace_set \<lparr>Elements = [\<lparr>ID = 7, State = 0\<rparr>], DefaultState = 6\<rparr> 7 True []
        = (True, \<lparr>Elements = [\<lparr>ID = 7, State = 15\<rparr>], DefaultState = 6\<rparr>, [])
   \<and> debug_namespace_get \<lparr>Elements = [\<lparr>ID = 7, State = 15\<rparr>], DefaultState = 6\<rparr> 7
        MESA_DEBUG_SEVERITY_HIGH = True
   \<and> (\<forall>en. Call_set 9 en \<notin> set [Call_set 7 False])
   \<and> debug_namespace_get \<lparr>Elements = [\<lparr>ID = 7, State = 0\<rparr>], DefaultState = 6\<rparr> 9
        MESA_DEBUG_SEVERITY_HIGH = bit (6 :: GLbitfield) MESA_DEBUG_SEVERITY_HIGH"
proof -
  have run: "do_calls [Call_set 7 False] []
      = (\<lparr>Elements = [\<lparr>ID = 7, State = 0\<rparr>], DefaultState = 6\<rparr>, [])"
    by (simp add: do_calls_def debug_namespace_init_def debug_namespace_set_def)
  have sev: "MESA_DEBUG_SEVERITY_HIGH < MESA_DEBUG_SEVERITY_COUNT" by simp
  have set: "debug_namespace_set \<lparr>Elements = [\<lparr>ID = 7, State = 0\<rparr>], DefaultState = 6\<rparr> 7 True []
        = (True, \<lparr>Elements = [\<lparr>ID = 7, State = 15\<rparr>], DefaultState = 6\<rparr>, [])"
    by (simp add: debug_namespace_set_def)
  have never: "\<forall>en. Call_set 9 en \<notin> set [Call_set 7 False]" by simp
  from get_after_set_and_get_unset [OF run sev, of 7 True "[]" _ "[]"] set
    get_after_set_and_get_unset [OF run sev, of 9] never run sev
  show ?thesis by simp
qed


lemma bit_set_severity_bit:
  "severity < MESA_DEBUG_SEVERITY_COUNT \<Longrightarrow>
     bit (set_severity_bit severity enabled w) n \<longleftrightarrow> (if n = severity then enabled else bit w n)"
  by (simp only: set_severity_bit_def with_bit) simp

text \<open>
  Claim C6. \<open>debug_namespace_set_all\<close> with the severity \<open>MESA_DEBUG_SEVERITY_COUNT\<close>
  (all severities) leaves no element and a default state whose bits are all set, for
  the four severities, when enabling and all clear when disabling. With one severity it
  sets that one bit of the default state and of the state of every element to
  \<open>enabled\<close>, leaves every other bit as it was, and removes exactly the elements whose
  state is then the new default state.
\<close>

theorem debug_namespace_set_all_effect:
  assumes "severity < MESA_DEBUG_SEVERITY_COUNT"
  shows "Elements (debug_namespace_set_all ns MESA_DEBUG_SEVERITY_COUNT enabled) = []
       \<and> (\<forall>n. bit (DefaultState (debug_namespace_set_all ns MESA_DEBUG_SEVERITY_COUNT enabled)) n
              \<longleftrightarrow> enabled \<and> n < MESA_DEBUG_SEVERITY_COUNT)
       \<and> DefaultState (debug_namespace_set_all ns severity enabled)
           = set_severity_bit severity enabled (DefaultState ns)
       \<and> Elements (debug_namespace_set_all ns severity enabled)
           = filter (\<lambda>e. State e \<noteq> DefaultState (debug_namespace_set_all ns severity enabled))
               (map (\<lambda>e. e\<lparr>State := set_severity_bit severity enabled (State e)\<rparr>) (Elements ns))
       \<and> (\<forall>w n. bit (set_severity_bit severity enabled w) n
              \<longleftrightarrow> (if n = severity then enabled else bit w n))"
proof -
  have "push_bit MESA_DEBUG_SEVERITY_COUNT 1 - 1 = (mask MESA_DEBUG_SEVERITY_COUNT :: GLbitfield)"
    by (simp add: mask_eq_exp_minus_1)
  then have wild: "DefaultState (debug_namespace_set_all ns MESA_DEBUG_SEVERITY_COUNT enabled)
      = (if enabled then mask MESA_DEBUG_SEVERITY_COUNT else 0)"
    by (simp add: debug_namespace_set_all_def)
  have 1: "Elements (debug_namespace_set_all ns MESA_DEBUG_SEVERITY_COUNT enabled) = []"
    by (simp add: debug_namespace_set_all_def)
  have 2: "\<forall>n. bit (DefaultState (debug_namespace_set_all ns MESA_DEBUG_SEVERITY_COUNT enabled)) n
              \<longleftrightarrow> enabled \<and> n < MESA_DEBUG_SEVERITY_COUNT"
    unfolding wild by (auto simp: bit_mask_iff)
  from assms have ne: "severity \<noteq> MESA_DEBUG_SEVERITY_COUNT" by simp
  have 3: "DefaultState (debug_namespace_set_all ns severity enabled)
           = set_severity_bit severity enabled (DefaultState ns)"
    using ne by (simp add: debug_namespace_set_all_def set_severity_bit_def Let_def)
  have 4: "Elements (debug_namespace_set_all ns severity enabled)
           = filter (\<lambda>e. State e \<noteq> DefaultState (debug_namespace_set_all ns severity enabled))
               (map (\<lambda>e. e\<lparr>State := set_severity_bit severity enabled (State e)\<rparr>) (Elements ns))"
    unfolding 3 using ne
    by (simp add: debug_namespace_set_all_def set_severity_bit_def Let_def set_all_loop_eq)
  have 5: "\<forall>w n. bit (set_severity_bit severity enabled w) n
              \<longleftrightarrow> (if n = severity then enabled else bit w n)"
    using assms by (simp add: bit_set_severity_bit)
  from 1 2 3 4 5 show ?thesis by blast
qed

theorem debug_namespace_set_all_effect_witness:
  "MESA_DEBUG_SEVERITY_LOW < MESA_DEBUG_SEVERITY_COUNT
   \<and> debug_namespace_set_all
        \<lparr>Elements = [\<lparr>ID = 1, State = 7\<rparr>, \<lparr>ID = 2, State = 0\<rparr>], DefaultState = 6\<rparr>
        MESA_DEBUG_SEVERITY_LOW True
      = \<lparr>Elements = [\<lparr>ID = 2, State = 1\<rparr>], DefaultState = 7\<rparr>
   \<and> set_severity_bit MESA_DEBUG_SEVERITY_LOW True 6 = 7
   \<and> set_severity_bit MESA_DEBUG_SEVERITY_LOW True 0 = 1
   \<and> debug_namespace_set_all
        \<lparr>Elements = [\<lparr>ID = 1, State = 7\<rparr>, \<lparr>ID = 2, State = 0\<rparr>], DefaultState = 6\<rparr>
        MESA_DEBUG_SEVERITY_COUNT False
      = \<lparr>Elements = [], DefaultState = 0\<rparr>"
proof -
  have sev: "MESA_DEBUG_SEVERITY_LOW < MESA_DEBUG_SEVERITY_COUNT" by simp
  from debug_namespace_set_all_effect [OF sev, of "\<lparr>Elements = [\<lparr>ID = 1, State = 7\<rparr>, \<lparr>ID = 2, State = 0\<rparr>], DefaultState = 6\<rparr>" True]
  have "DefaultState (debug_namespace_set_all
        \<lparr>Elements = [\<lparr>ID = 1, State = 7\<rparr>, \<lparr>ID = 2, State = 0\<rparr>], DefaultState = 6\<rparr>
        MESA_DEBUG_SEVERITY_LOW True) = set_severity_bit MESA_DEBUG_SEVERITY_LOW True 6"
    by simp
  then show ?thesis
    by (simp add: debug_namespace_set_all_def set_severity_bit_def)
qed

lemma mod_add_less_inj:
  fixes a :: nat
  assumes "i < j" "j < c"
  shows "(a + i) mod c \<noteq> (a + j) mod c"
proof
  assume "(a + i) mod c = (a + j) mod c"
  then have "(a + j) mod c = (a + i) mod c" by simp
  moreover have "a + i \<le> a + j" using assms by simp
  ultimately have "c dvd (a + j) - (a + i)" by (simp only: mod_eq_dvd_iff_nat)
  then have "c dvd j - i" by simp
  moreover have "0 < j - i" using assms by simp
  ultimately have "c \<le> j - i" by (rule dvd_imp_le)
  with assms show False by simp
qed

lemma mod_add_inj:
  fixes a :: nat
  assumes "i < c" "j < c" "i \<noteq> j"
  shows "(a + i) mod c \<noteq> (a + j) mod c"
proof (cases "i < j")
  case True
  with assms show ?thesis by (simp add: mod_add_less_inj)
next
  case False
  with assms have "j < i" by simp
  with assms mod_add_less_inj [of j i c a] show ?thesis by simp
qed

lemma length_log_contents: "length (log_contents lim lg) = NumMessages lg"
  by (simp add: log_contents_def)

lemma log_contents_append:
  assumes "wf_log lim lg" "NumMessages lg < MAX_DEBUG_LOGGED_MESSAGES lim"
  defines "e \<equiv> (NextMessage lg + NumMessages lg) mod MAX_DEBUG_LOGGED_MESSAGES lim"
  shows "log_contents lim (lg\<lparr>Messages := (Messages lg)[e := slot], NumMessages := NumMessages lg + 1\<rparr>)
           = log_contents lim lg @ [slot]"
    and "wf_log lim (lg\<lparr>Messages := (Messages lg)[e := slot], NumMessages := NumMessages lg + 1\<rparr>)"
proof -
  let ?c = "MAX_DEBUG_LOGGED_MESSAGES lim"
  have e: "e < length (Messages lg)" using assms by (simp add: wf_log_def)
  have other: "(Messages lg)[e := slot] ! ((NextMessage lg + k) mod ?c)
       = Messages lg ! ((NextMessage lg + k) mod ?c)" if "k < NumMessages lg" for k
  proof -
    from that assms(2) have "(NextMessage lg + k) mod ?c \<noteq> (NextMessage lg + NumMessages lg) mod ?c"
      by (intro mod_add_inj) simp_all
    then show ?thesis by (simp add: e_def)
  qed
  show "log_contents lim (lg\<lparr>Messages := (Messages lg)[e := slot], NumMessages := NumMessages lg + 1\<rparr>)
           = log_contents lim lg @ [slot]"
    using e other by (simp add: log_contents_def e_def)
  show "wf_log lim (lg\<lparr>Messages := (Messages lg)[e := slot], NumMessages := NumMessages lg + 1\<rparr>)"
    using assms by (simp add: wf_log_def)
qed

lemma log_contents_tl:
  assumes "wf_log lim lg" "NumMessages lg \<noteq> 0"
  shows "log_contents lim (lg\<lparr>Messages := (Messages lg)[NextMessage lg := msg],
            NumMessages := NumMessages lg - 1,
            NextMessage := (NextMessage lg + 1) mod MAX_DEBUG_LOGGED_MESSAGES lim\<rparr>)
           = tl (log_contents lim lg)"
    and "wf_log lim (lg\<lparr>Messages := (Messages lg)[NextMessage lg := msg],
            NumMessages := NumMessages lg - 1,
            NextMessage := (NextMessage lg + 1) mod MAX_DEBUG_LOGGED_MESSAGES lim\<rparr>)"
proof -
  let ?c = "MAX_DEBUG_LOGGED_MESSAGES lim"
  from assms have c: "0 < ?c" "NextMessage lg < ?c" "NumMessages lg \<le> ?c"
    by (simp_all add: wf_log_def)
  have idx: "(Messages lg)[NextMessage lg := msg] ! (((NextMessage lg + 1) mod ?c + k) mod ?c)
       = Messages lg ! ((NextMessage lg + Suc k) mod ?c)" if "k < NumMessages lg - 1" for k
  proof -
    have eq: "((NextMessage lg + 1) mod ?c + k) mod ?c = (NextMessage lg + Suc k) mod ?c"
      by (simp add: mod_add_left_eq)
    from that c have "(NextMessage lg + Suc k) mod ?c \<noteq> (NextMessage lg + 0) mod ?c"
      by (intro mod_add_inj) simp_all
    with c have "(NextMessage lg + Suc k) mod ?c \<noteq> NextMessage lg" by simp
    then show ?thesis unfolding eq by simp
  qed
  have "log_contents lim (lg\<lparr>Messages := (Messages lg)[NextMessage lg := msg],
            NumMessages := NumMessages lg - 1,
            NextMessage := (NextMessage lg + 1) mod ?c\<rparr>)
        = map (\<lambda>k. Messages lg ! ((NextMessage lg + Suc k) mod ?c)) [0 ..< NumMessages lg - 1]"
    using idx by (simp add: log_contents_def)
  also have "\<dots> = tl (log_contents lim lg)"
  proof -
    have "[0 ..< NumMessages lg] = 0 # map Suc [0 ..< NumMessages lg - 1]"
      using assms(2) by (simp add: map_Suc_upt upt_conv_Cons)
    then show ?thesis
      by (simp add: log_contents_def comp_def)
  qed
  finally show "log_contents lim (lg\<lparr>Messages := (Messages lg)[NextMessage lg := msg],
            NumMessages := NumMessages lg - 1,
            NextMessage := (NextMessage lg + 1) mod ?c\<rparr>) = tl (log_contents lim lg)" .
  show "wf_log lim (lg\<lparr>Messages := (Messages lg)[NextMessage lg := msg],
            NumMessages := NumMessages lg - 1,
            NextMessage := (NextMessage lg + 1) mod ?c\<rparr>)"
    using assms c by (simp add: wf_log_def)
qed

lemma fetch_contents:
  assumes "wf_log lim (Log debug)"
  shows "debug_fetch_message debug =
     (case log_contents lim (Log debug) of [] \<Rightarrow> None | m # ms \<Rightarrow> Some m)"
proof (cases "NumMessages (Log debug) = 0")
  case True
  then show ?thesis by (simp add: debug_fetch_message_def log_contents_def)
next
  case False
  then have "[0 ..< NumMessages (Log debug)] = 0 # [1 ..< NumMessages (Log debug)]"
    by (simp add: upt_conv_Cons)
  with False assms show ?thesis
    by (simp add: debug_fetch_message_def log_contents_def wf_log_def Let_def)
qed

lemma malloc_ok:
  "set al \<subseteq> {True} \<Longrightarrow> malloc al = (True, tl al) \<and> set (tl al) \<subseteq> {True}"
  by (cases al) auto

lemma message_eta:
  "msg\<lparr>m_source := a, m_type := b, m_id := c, m_severity := d, m_length := e, m_message := f\<rparr>
     = \<lparr>m_source = a, m_type = b, m_id = c, m_severity = d, m_length = e, m_message = f\<rparr>"
  by (cases msg) simp

lemma store_ok:
  assumes "malloc_succeeds p"
  shows "debug_message_store msg (a_source a) (a_type a) (a_id a) (a_severity a) (a_len a) (a_buf a) p
           = (stored a, p\<lparr>malloc_results := tl (malloc_results p)\<rparr>)"
    and "malloc_succeeds (p\<lparr>malloc_results := tl (malloc_results p)\<rparr>)"
  using malloc_ok [of "malloc_results p"] assms
  by (simp_all add: debug_message_store_def malloc_succeeds_def stored_def message_eta)

lemma log_message_full:
  "NumMessages (Log debug) = MAX_DEBUG_LOGGED_MESSAGES lim \<Longrightarrow>
     debug_log_message lim debug source type i severity len buf p = (debug, p)"
  by (simp add: debug_log_message_def)

lemma log_message_ok:
  assumes "wf_log lim (Log debug)" "NumMessages (Log debug) \<noteq> MAX_DEBUG_LOGGED_MESSAGES lim"
    "malloc_succeeds p"
    "debug_log_message lim debug (a_source a) (a_type a) (a_id a) (a_severity a)
             (a_len a) (a_buf a) p = (debug', p')"
  shows "log_contents lim (Log debug') = log_contents lim (Log debug) @ [stored a]"
    and "wf_log lim (Log debug')" and "malloc_succeeds p'"
proof -
  let ?e = "(NextMessage (Log debug) + NumMessages (Log debug)) mod MAX_DEBUG_LOGGED_MESSAGES lim"
  from assms(1,2) have lt: "NumMessages (Log debug) < MAX_DEBUG_LOGGED_MESSAGES lim"
    by (simp add: wf_log_def)
  from assms(2,4) store_ok(1) [OF assms(3), where msg = "Messages (Log debug) ! ?e" and a = a]
  have d: "debug' = debug\<lparr>Log := (Log debug)\<lparr>Messages := (Messages (Log debug))[?e := stored a],
              NumMessages := NumMessages (Log debug) + 1\<rparr>\<rparr>"
    and p: "p' = p\<lparr>malloc_results := tl (malloc_results p)\<rparr>"
    by (auto simp: debug_log_message_def Let_def)
  from log_contents_append [OF assms(1) lt, of "stored a"] d
  show "log_contents lim (Log debug') = log_contents lim (Log debug) @ [stored a]"
    and "wf_log lim (Log debug')" by simp_all
  from store_ok(2) [OF assms(3)] p show "malloc_succeeds p'" by simp
qed

lemma log_messages_contents:
  assumes "wf_log lim (Log debug)" "malloc_succeeds p"
  shows "log_contents lim (Log (fst (log_messages lim debug as p)))
           = take (MAX_DEBUG_LOGGED_MESSAGES lim) (log_contents lim (Log debug) @ map stored as)
         \<and> wf_log lim (Log (fst (log_messages lim debug as p)))"
  using assms
proof (induction as arbitrary: debug p)
  case Nil
  then show ?case by (simp add: length_log_contents wf_log_def)
next
  case (Cons a as)
  obtain debug' p' where step: "debug_log_message lim debug (a_source a) (a_type a) (a_id a)
      (a_severity a) (a_len a) (a_buf a) p = (debug', p')"
    by (cases "debug_log_message lim debug (a_source a) (a_type a) (a_id a)
      (a_severity a) (a_len a) (a_buf a) p")
  show ?case
  proof (cases "NumMessages (Log debug) = MAX_DEBUG_LOGGED_MESSAGES lim")
    case True
    with step have "debug' = debug" "p' = p" by (simp_all add: log_message_full)
    with Cons.IH [OF Cons.prems] step True show ?thesis
      by (simp add: length_log_contents)
  next
    case False
    note ok = log_message_ok [OF Cons.prems(1) False Cons.prems(2) step]
    from Cons.IH [OF ok(2,3)] ok(1) step show ?thesis by simp
  qed
qed

lemma delete_one:
  assumes "wf_log lim (Log debug)" "NumMessages (Log debug) \<noteq> 0"
    "debug_delete_messages lim debug 1 p = (debug', p')"
  shows "log_contents lim (Log debug') = tl (log_contents lim (Log debug))"
    and "wf_log lim (Log debug')"
proof -
  obtain msg q where c: "debug_message_clear (Messages (Log debug) ! NextMessage (Log debug)) p = (msg, q)"
    by (cases "debug_message_clear (Messages (Log debug) ! NextMessage (Log debug)) p")
  from assms(2,3) c have "debug' = debug\<lparr>Log := (Log debug)\<lparr>Messages := (Messages (Log debug))[NextMessage (Log debug) := msg],
            NumMessages := NumMessages (Log debug) - 1,
            NextMessage := (NextMessage (Log debug) + 1) mod MAX_DEBUG_LOGGED_MESSAGES lim\<rparr>\<rparr>"
    by (auto simp: debug_delete_messages_def Let_def)
  with log_contents_tl [OF assms(1,2), of msg]
  show "log_contents lim (Log debug') = tl (log_contents lim (Log debug))"
    and "wf_log lim (Log debug')" by simp_all
qed

lemma fetch_messages_contents:
  "wf_log lim (Log debug) \<Longrightarrow> fetch_messages lim n debug p = take n (log_contents lim (Log debug))"
proof (induction n arbitrary: debug p)
  case 0
  then show ?case by simp
next
  case (Suc n)
  show ?case
  proof (cases "log_contents lim (Log debug)")
    case Nil
    with Suc.prems show ?thesis by (simp add: fetch_contents)
  next
    case (Cons m ms)
    then have ne: "NumMessages (Log debug) \<noteq> 0"
      using length_log_contents [of lim "Log debug"] by auto
    obtain debug' p' where del: "debug_delete_messages lim debug 1 p = (debug', p')"
      by (cases "debug_delete_messages lim debug 1 p")
    note d = delete_one [OF Suc.prems ne del]
    from Suc.IH [OF d(2)] d(1) Cons Suc.prems del show ?thesis
      by (simp add: fetch_contents)
  qed
qed

lemma debug_create_example:
  "debug_create example_limits initial_process = (Some example_debug, example_process)"
  by (simp add: debug_create_def example_limits_def initial_process_def example_debug_def
      example_process_def malloc_group_def initial_group_def)

lemma example_wf_log: "wf_log example_limits (Log example_debug)"
  by (simp add: wf_log_def example_limits_def example_debug_def)

lemma example_malloc_succeeds: "malloc_succeeds example_process"
  by (simp add: malloc_succeeds_def example_process_def initial_process_def)

lemma example_empty: "log_contents example_limits (Log example_debug) = []"
  by (simp add: log_contents_def example_debug_def)

text \<open>
  Claim C2, as amended. After \<open>MAX_DEBUG_LOGGED_MESSAGES + k\<close> calls of
  \<open>debug_log_message\<close> on an empty log, with every allocation succeeding, the log
  holds \<open>MAX_DEBUG_LOGGED_MESSAGES\<close> messages, and draining \<open>n\<close> messages one by one
  fetches, in the order of the calls, the first \<open>n\<close> of the messages of the first
  \<open>MAX_DEBUG_LOGGED_MESSAGES\<close> calls: the messages of the last \<open>k\<close> calls were dropped
  and no drain fetches them.
\<close>

theorem log_full_drops_newest:
  assumes "wf_log lim (Log debug)" "NumMessages (Log debug) = 0" "malloc_succeeds p"
    and "length as = MAX_DEBUG_LOGGED_MESSAGES lim + k"
    and "log_messages lim debug as p = (debug', p')"
  shows "NumMessages (Log debug') = MAX_DEBUG_LOGGED_MESSAGES lim
       \<and> fetch_messages lim n debug' q
           = take n (map stored (take (MAX_DEBUG_LOGGED_MESSAGES lim) as))"
proof -
  from assms(2) have "log_contents lim (Log debug) = []"
    by (simp add: log_contents_def)
  with log_messages_contents [OF assms(1,3), of as] assms(5)
  have c: "log_contents lim (Log debug') = map stored (take (MAX_DEBUG_LOGGED_MESSAGES lim) as)"
    and wf: "wf_log lim (Log debug')"
    by (simp_all add: take_map)
  from c assms(4) length_log_contents [of lim "Log debug'"]
  have "NumMessages (Log debug') = MAX_DEBUG_LOGGED_MESSAGES lim" by simp
  with fetch_messages_contents [OF wf, of n q] c show ?thesis by simp
qed

lemma example_MAX: "MAX_DEBUG_LOGGED_MESSAGES example_limits = 10"
  by (simp add: example_limits_def)

text \<open>
  Claim C2 as stated fails: of eleven messages logged into the empty log of ten
  entries, the first one is fetched first and the eleventh is never fetched.
\<close>

theorem log_full_drops_first_counterexample:
  "map m_id (fetch_messages example_limits 11
      (fst (log_messages example_limits example_debug
              (map message_numbered [1, 2, 3, 4, 5, 6, 7, 8, 9, 10, 11]) example_process))
      (snd (log_messages example_limits example_debug
              (map message_numbered [1, 2, 3, 4, 5, 6, 7, 8, 9, 10, 11]) example_process)))
   = [1, 2, 3, 4, 5, 6, 7, 8, 9, 10]"
proof -
  let ?as = "map message_numbered [1, 2, 3, 4, 5, 6, 7, 8, 9, 10, 11]"
  note l = log_messages_contents [OF example_wf_log example_malloc_succeeds, of ?as]
  from l have "fetch_messages example_limits 11
      (fst (log_messages example_limits example_debug ?as example_process)) q
    = take 11 (take 10 (map stored ?as))" for q
    by (simp only: fetch_messages_contents example_empty example_MAX append_Nil)
  moreover have "map m_id (take 11 (take 10 (map stored ?as))) = [1, 2, 3, 4, 5, 6, 7, 8, 9, 10]"
    by (simp add: stored_def message_numbered_def)
  ultimately show ?thesis by (simp only:)
qed

theorem log_full_drops_newest_witness:
  "wf_log example_limits (Log example_debug) \<and> NumMessages (Log example_debug) = 0
   \<and> malloc_succeeds example_process
   \<and> length (map message_numbered [1, 2, 3, 4, 5, 6, 7, 8, 9, 10, 11, 12])
        = MAX_DEBUG_LOGGED_MESSAGES example_limits + 2
   \<and> NumMessages (Log (fst (log_messages example_limits example_debug
        (map message_numbered [1, 2, 3, 4, 5, 6, 7, 8, 9, 10, 11, 12]) example_process))) = 10
   \<and> map m_id (fetch_messages example_limits 12
        (fst (log_messages example_limits example_debug
          (map message_numbered [1, 2, 3, 4, 5, 6, 7, 8, 9, 10, 11, 12]) example_process))
        example_process)
      = [1, 2, 3, 4, 5, 6, 7, 8, 9, 10]"
proof -
  let ?as = "map message_numbered [1, 2, 3, 4, 5, 6, 7, 8, 9, 10, 11, 12]"
  have len: "length ?as = MAX_DEBUG_LOGGED_MESSAGES example_limits + 2"
    by (simp add: example_limits_def)
  have empty: "NumMessages (Log example_debug) = 0" by (simp add: example_debug_def)
  note t = log_full_drops_newest [OF example_wf_log empty example_malloc_succeeds len surjective_pairing,
      of 12 example_process]
  have "map m_id (take 12 (map stored (take 10 ?as))) = [1, 2, 3, 4, 5, 6, 7, 8, 9, 10]"
    by (simp add: stored_def message_numbered_def)
  with t have "NumMessages (Log (fst (log_messages example_limits example_debug ?as example_process))) = 10"
    and "map m_id (fetch_messages example_limits 12
        (fst (log_messages example_limits example_debug ?as example_process)) example_process)
      = [1, 2, 3, 4, 5, 6, 7, 8, 9, 10]"
    by (simp_all only: example_MAX)
  with example_wf_log empty example_malloc_succeeds len show ?thesis
    by (simp only: simp_thms)
qed

lemma append_out_Nil: "append_out buf [] = buf"
  by (cases buf) (simp_all add: append_out_def)

lemma append_out_put: "append_out (put buf x) xs = append_out buf (x # xs)"
  by (cases buf) (simp_all add: append_out_def put_def)

lemma append_out_append: "append_out (append_out b xs) ys = append_out b (xs @ ys)"
  by (cases b) (simp_all add: append_out_def)

lemma deliver_Nil: "deliver [] bufs = bufs"
  by (cases bufs) (simp add: deliver_def append_out_Nil)

lemma deliver_Cons:
  "deliver (m # ms) bufs =
     deliver ms (bufs\<lparr>out_messageLog := append_out (out_messageLog bufs) (message_chars m),
                    out_lengths := put (out_lengths bufs) (m_length m),
                    out_severities := put (out_severities bufs) (debug_severity_enums ! m_severity m),
                    out_sources := put (out_sources bufs) (debug_source_enums ! m_source m),
                    out_types := put (out_types bufs) (debug_type_enums ! m_type m),
                    out_ids := put (out_ids bufs) (m_id m)\<rparr>)"
  by (simp add: deliver_def append_out_put append_out_append)

lemma loop_step:
  assumes "debug_fetch_message debug = Some m"
    "\<not> (logSize < m_length m \<and> out_messageLog bufs \<noteq> None)"
    "debug_delete_messages lim debug 1 p = (debug1, p1)"
  shows "GetDebugMessageLog_loop lim (Suc n) ret logSize bufs debug p =
     GetDebugMessageLog_loop lim n (Suc ret)
       (if out_messageLog bufs = None then logSize else logSize - m_length m)
       (bufs\<lparr>out_messageLog := append_out (out_messageLog bufs) (message_chars m),
                    out_lengths := put (out_lengths bufs) (m_length m),
                    out_severities := put (out_severities bufs) (debug_severity_enums ! m_severity m),
                    out_sources := put (out_sources bufs) (debug_source_enums ! m_source m),
                    out_types := put (out_types bufs) (debug_type_enums ! m_type m),
                    out_ids := put (out_ids bufs) (m_id m)\<rparr>)
       debug1 p1"
proof (cases "out_messageLog bufs")
  case None
  with assms show ?thesis
    by (simp add: append_out_def)
next
  case (Some written)
  with assms show ?thesis
    by (simp add: append_out_def message_chars_def)
qed

lemma loop_stop:
  assumes "debug_fetch_message debug = Some m"
    "logSize < m_length m \<and> out_messageLog bufs \<noteq> None"
  shows "GetDebugMessageLog_loop lim (Suc n) ret logSize bufs debug p = (ret, bufs, debug, p)"
  using assms by simp

lemma loop_empty:
  assumes "debug_fetch_message debug = None"
  shows "GetDebugMessageLog_loop lim n ret logSize bufs debug p = (ret, bufs, debug, p)"
  using assms by (cases n) simp_all

lemma loop_spec:
  assumes "wf_log lim (Log debug)"
    "GetDebugMessageLog_loop lim n ret logSize bufs debug p = (ret', bufs', debug', p')"
  shows "ret' = ret + drained n logSize bufs (log_contents lim (Log debug))
       \<and> bufs' = deliver (take (drained n logSize bufs (log_contents lim (Log debug)))
                    (log_contents lim (Log debug))) bufs
       \<and> log_contents lim (Log debug')
           = drop (drained n logSize bufs (log_contents lim (Log debug))) (log_contents lim (Log debug))
       \<and> wf_log lim (Log debug')"
  using assms
proof (induction n arbitrary: ret logSize bufs debug p)
  case 0
  then show ?case by (simp add: drained_def deliver_Nil)
next
  case (Suc n)
  show ?case
  proof (cases "log_contents lim (Log debug)")
    case Nil
    with Suc.prems(1) have "debug_fetch_message debug = None"
      by (simp add: fetch_contents)
    from loop_empty [OF this] Suc.prems Nil show ?thesis
      by (simp add: drained_def deliver_Nil)
  next
    case (Cons m ms)
    with Suc.prems(1) have fetch: "debug_fetch_message debug = Some m"
      by (simp add: fetch_contents)
    show ?thesis
    proof (cases "logSize < m_length m \<and> out_messageLog bufs \<noteq> None")
      case True
      from loop_stop [OF fetch True] Suc.prems(2) True Cons Suc.prems(1) show ?thesis
        by (auto simp: drained_def deliver_Nil)
    next
      case False
      obtain debug1 p1 where del: "debug_delete_messages lim debug 1 p = (debug1, p1)"
        by (cases "debug_delete_messages lim debug 1 p")
      from Cons have ne: "NumMessages (Log debug) \<noteq> 0"
        using length_log_contents [of lim "Log debug"] by auto
      note d = delete_one [OF Suc.prems(1) ne del]
      let ?bufs1 = "bufs\<lparr>out_messageLog := append_out (out_messageLog bufs) (message_chars m),
                    out_lengths := put (out_lengths bufs) (m_length m),
                    out_severities := put (out_severities bufs) (debug_severity_enums ! m_severity m),
                    out_sources := put (out_sources bufs) (debug_source_enums ! m_source m),
                    out_types := put (out_types bufs) (debug_type_enums ! m_type m),
                    out_ids := put (out_ids bufs) (m_id m)\<rparr>"
      let ?size1 = "if out_messageLog bufs = None then logSize else logSize - m_length m"
      from loop_step [OF fetch False del] Suc.prems(2)
      have "GetDebugMessageLog_loop lim n (Suc ret) ?size1 ?bufs1 debug1 p1 = (ret', bufs', debug', p')"
        by simp
      note ih = Suc.IH [OF d(2) this]
      have k: "drained (Suc n) logSize bufs (m # ms) = Suc (drained n ?size1 ?bufs1 ms)"
        using False by (auto simp: drained_def append_out_def)
      from ih d(1) Cons show ?thesis
        unfolding Cons k by (simp add: deliver_Cons)
    qed
  qed
qed

lemma drain_fit_sum:
  "0 \<le> room \<Longrightarrow> sum_list (map m_length (take (drain_fit n room ms) ms)) \<le> room"
proof (induction n room ms rule: drain_fit.induct)
  case (3 n room m ms)
  then show ?case by (cases "m_length m \<le> room") simp_all
qed simp_all

lemma drain_fit_stop:
  "drain_fit n room ms < n \<Longrightarrow> drain_fit n room ms < length ms \<Longrightarrow>
     room - sum_list (map m_length (take (drain_fit n room ms) ms))
       < m_length (ms ! drain_fit n room ms)"
proof (induction n room ms rule: drain_fit.induct)
  case (3 n room m ms)
  then show ?case by (cases "m_length m \<le> room") simp_all
qed simp_all

lemma get_debug_state_Some:
  "Debug ctx = Some debug \<Longrightarrow> mesa_get_debug_state lim ctx p = (Some debug, ctx, p)"
  by (simp add: mesa_get_debug_state_def)

lemma GetDebugMessageLog_spec:
  assumes "Debug ctx = Some debug" "wf_log lim (Log debug)"
    "out_messageLog bufs \<noteq> None \<longrightarrow> 0 \<le> logSize"
  obtains debug' p' where
    "mesa_GetDebugMessageLog lim count logSize bufs ctx p =
       Inr (drained count logSize bufs (log_contents lim (Log debug)),
            deliver (take (drained count logSize bufs (log_contents lim (Log debug)))
                 (log_contents lim (Log debug))) bufs,
            ctx\<lparr>Debug := Some debug'\<rparr>, p')"
    "log_contents lim (Log debug')
       = drop (drained count logSize bufs (log_contents lim (Log debug))) (log_contents lim (Log debug))"
    "wf_log lim (Log debug')"
proof -
  let ?size = "if out_messageLog bufs = None then 0 else logSize"
  obtain ret' bufs' debug' p' where
    loop: "GetDebugMessageLog_loop lim count 0 ?size bufs debug p = (ret', bufs', debug', p')"
    by (cases "GetDebugMessageLog_loop lim count 0 ?size bufs debug p")
  have same: "drained count ?size bufs cs = drained count logSize bufs cs" for cs
    by (simp add: drained_def)
  note spec = loop_spec [OF assms(2) loop, unfolded same]
  from assms(3) have "\<not> ?size < 0" by auto
  with loop assms(1) spec
  have "mesa_GetDebugMessageLog lim count logSize bufs ctx p =
       Inr (drained count logSize bufs (log_contents lim (Log debug)),
            deliver (take (drained count logSize bufs (log_contents lim (Log debug)))
                 (log_contents lim (Log debug))) bufs,
            ctx\<lparr>Debug := Some debug'\<rparr>, p')"
    by (simp add: mesa_GetDebugMessageLog_def get_debug_state_Some Let_def)
  with spec that show thesis by blast
qed

text \<open>
  Claim C4, as amended. On a context that has its debug state, with a text buffer and a
  capacity that is not negative, \<open>_mesa_GetDebugMessageLog\<close> raises no error and drains
  the oldest messages while the stored length of the next one is at most the capacity
  that is left: the lengths of the drained messages sum to at most the capacity, and when
  the drain ends before \<open>count\<close> with a message left, that message is longer than what
  is left and stays in the log, with all that follow it. Without a text buffer (a null
  pointer) it drains \<open>count\<close> messages, or all there are, writes no text, and no length
  stops it. In both cases the arrays receive the data of exactly the drained messages.
\<close>

theorem drain_partial_fit:
  assumes "Debug ctx = Some debug" "wf_log lim (Log debug)"
    "out_messageLog bufs \<noteq> None \<longrightarrow> 0 \<le> logSize"
  shows "case mesa_GetDebugMessageLog lim count logSize bufs ctx p of
           Inl e \<Rightarrow> False
         | Inr (ret, bufs', ctx', p') \<Rightarrow>
             (out_messageLog bufs \<noteq> None \<longrightarrow>
                ret = drain_fit count logSize (log_contents lim (Log debug))
              \<and> sum_list (map m_length (take ret (log_contents lim (Log debug)))) \<le> logSize
              \<and> (ret < count \<and> ret < NumMessages (Log debug) \<longrightarrow>
                   logSize - sum_list (map m_length (take ret (log_contents lim (Log debug))))
                     < m_length (log_contents lim (Log debug) ! ret)))
           \<and> (out_messageLog bufs = None \<longrightarrow>
                ret = min count (NumMessages (Log debug)) \<and> out_messageLog bufs' = None)
           \<and> bufs' = deliver (take ret (log_contents lim (Log debug))) bufs
           \<and> (case Debug ctx' of
                 None \<Rightarrow> False
               | Some debug' \<Rightarrow>
                   log_contents lim (Log debug') = drop ret (log_contents lim (Log debug)))"
proof -
  let ?cs = "log_contents lim (Log debug)"
  from assms obtain debug' p' where
    r: "mesa_GetDebugMessageLog lim count logSize bufs ctx p =
       Inr (drained count logSize bufs ?cs, deliver (take (drained count logSize bufs ?cs) ?cs) bufs,
            ctx\<lparr>Debug := Some debug'\<rparr>, p')"
    and c: "log_contents lim (Log debug') = drop (drained count logSize bufs ?cs) ?cs"
    by (rule GetDebugMessageLog_spec)
  show ?thesis
  proof (cases "out_messageLog bufs")
    case None
    then have "drained count logSize bufs ?cs = min count (NumMessages (Log debug))"
      by (simp add: drained_def length_log_contents)
    with r c None show ?thesis
      by (simp add: deliver_def append_out_def)
  next
    case (Some written)
    then have k: "drained count logSize bufs ?cs = drain_fit count logSize ?cs"
      by (simp add: drained_def)
    from Some assms(3) have "0 \<le> logSize" by simp
    note s = drain_fit_sum [OF this, of count ?cs]
    note t = drain_fit_stop [of count logSize ?cs]
    from r c Some s t show ?thesis
      unfolding k by (simp add: length_log_contents)
  qed
qed

lemma example_logged_contents:
  "log_contents example_limits (Log example_logged) = map stored example_messages"
  "wf_log example_limits (Log example_logged)"
  using log_messages_contents [OF example_wf_log example_malloc_succeeds, of example_messages]
  by (simp_all add: example_logged_def example_empty example_MAX example_messages_def)

lemma example_logged_lengths:
  "map m_length (map stored example_messages) = [5, 10, 3]"
  "map m_id (map stored example_messages) = [1, 2, 3]"
  by (simp_all add: example_messages_def stored_def)

lemma example_logged_Num: "NumMessages (Log example_logged) = 3"
  using length_log_contents [of example_limits "Log example_logged"]
  by (simp add: example_logged_contents example_messages_def)

text \<open>
  Claim C4 as stated fails for a capacity of zero with a text buffer: the first
  message does not fit, and the drain returns 0 and leaves the log and the arrays as they
  were.
\<close>

theorem drain_zero_capacity_blocked_counterexample:
  "mesa_GetDebugMessageLog example_limits 3 0 text_buffers \<lparr>Debug = Some example_logged\<rparr>
     example_logged_process
   = Inr (0, text_buffers, \<lparr>Debug = Some example_logged\<rparr>, example_logged_process)"
proof -
  have fetch: "debug_fetch_message example_logged = Some (stored (hd example_messages))"
    by (simp add: fetch_contents [OF example_logged_contents(2)] example_logged_contents(1)
        example_messages_def)
  have "0 < m_length (stored (hd example_messages)) \<and> out_messageLog text_buffers \<noteq> None"
    by (simp add: example_messages_def stored_def text_buffers_def)
  from loop_stop [OF fetch this, of example_limits 2 0 example_logged_process]
  have "GetDebugMessageLog_loop example_limits 3 0 0 text_buffers example_logged example_logged_process
      = (0, text_buffers, example_logged, example_logged_process)"
    by (simp add: numeral_3_eq_3)
  then show ?thesis
    by (simp add: mesa_GetDebugMessageLog_def mesa_get_debug_state_def text_buffers_def)
qed

theorem drain_partial_fit_witness:
  "Debug \<lparr>Debug = Some example_logged\<rparr> = Some example_logged
   \<and> wf_log example_limits (Log example_logged)
   \<and> out_messageLog text_buffers \<noteq> None \<and> (0 :: int) \<le> 12
   \<and> map m_length (log_contents example_limits (Log example_logged)) = [5, 10, 3]
   \<and> (case mesa_GetDebugMessageLog example_limits 3 12 text_buffers
             \<lparr>Debug = Some example_logged\<rparr> example_logged_process of
         Inl e \<Rightarrow> False
       | Inr (ret, bufs', ctx', p') \<Rightarrow>
           ret = 1 \<and> out_lengths bufs' = Some [5] \<and> out_ids bufs' = Some [1]
         \<and> out_messageLog bufs' = Some (''abcd'' @ [NUL])
         \<and> (case Debug ctx' of
               None \<Rightarrow> False
             | Some debug' \<Rightarrow>
                 map m_length (log_contents example_limits (Log debug')) = [10, 3]))"
proof -
  have ctx: "Debug \<lparr>Debug = Some example_logged\<rparr> = Some example_logged" by simp
  have size: "out_messageLog text_buffers \<noteq> None \<longrightarrow> (0 :: int) \<le> 12" by simp
  have fit: "drain_fit 3 12 (map stored example_messages) = 1"
    by (simp add: example_messages_def stored_def numeral_3_eq_3)
  have out: "deliver (take 1 (map stored example_messages)) text_buffers =
      \<lparr>out_sources = Some [GL_DEBUG_SOURCE_APPLICATION], out_types = Some [GL_DEBUG_TYPE_OTHER],
       out_ids = Some [1], out_severities = Some [GL_DEBUG_SEVERITY_HIGH],
       out_lengths = Some [5], out_messageLog = Some (''abcd'' @ [NUL])\<rparr>"
    by (simp add: example_messages_def stored_def deliver_def append_out_def text_buffers_def
        message_chars_def strncpy_def debug_source_enums_def debug_type_enums_def
        debug_severity_enums_def)
  have rest: "map m_length (drop 1 (map stored example_messages)) = [10, 3]"
    by (simp add: example_messages_def stored_def)
  have ne: "out_messageLog text_buffers \<noteq> None" by (simp add: text_buffers_def)
  from drain_partial_fit [OF ctx example_logged_contents(2) size, of 3 example_logged_process]
  have "case mesa_GetDebugMessageLog example_limits 3 12 text_buffers
             \<lparr>Debug = Some example_logged\<rparr> example_logged_process of
         Inl e \<Rightarrow> False
       | Inr (ret, bufs', ctx', p') \<Rightarrow>
           ret = 1 \<and> out_lengths bufs' = Some [5] \<and> out_ids bufs' = Some [1]
         \<and> out_messageLog bufs' = Some (''abcd'' @ [NUL])
         \<and> (case Debug ctx' of
               None \<Rightarrow> False
             | Some debug' \<Rightarrow>
                 map m_length (log_contents example_limits (Log debug')) = [10, 3])"
    using ne fit out rest
    by (auto simp: example_logged_contents(1) split: sum.splits prod.splits option.splits)
  with ctx example_logged_contents ne example_logged_lengths(1) show ?thesis
    by (simp only: simp_thms)
qed

text \<open>
  Claim C10. When the pointer for the text is null, \<open>_mesa_GetDebugMessageLog\<close> does
  what it does for a capacity of zero, whatever the capacity passed (negative
  included), and never raises \<open>GL_INVALID_VALUE\<close>; on a context that has its debug
  state it drains \<open>count\<close> messages, or all there are, whatever their lengths, writes
  their data to the arrays and no text.
\<close>

theorem drain_null_text_pointer:
  assumes "out_messageLog bufs = None"
  shows "mesa_GetDebugMessageLog lim count logSize bufs ctx p
           = mesa_GetDebugMessageLog lim count 0 bufs ctx p
       \<and> mesa_GetDebugMessageLog lim count logSize bufs ctx p \<noteq> Inl GL_INVALID_VALUE
       \<and> (\<forall>debug. Debug ctx = Some debug \<and> wf_log lim (Log debug) \<longrightarrow>
            (case mesa_GetDebugMessageLog lim count logSize bufs ctx p of
               Inl e \<Rightarrow> False
             | Inr (ret, bufs', ctx', p') \<Rightarrow>
                 ret = min count (NumMessages (Log debug))
               \<and> bufs' = deliver (take count (log_contents lim (Log debug))) bufs
               \<and> out_messageLog bufs' = None
               \<and> (case Debug ctx' of
                     None \<Rightarrow> False
                   | Some debug' \<Rightarrow>
                       log_contents lim (Log debug') = drop count (log_contents lim (Log debug)))))"
proof (intro conjI allI impI)
  from assms show "mesa_GetDebugMessageLog lim count logSize bufs ctx p
           = mesa_GetDebugMessageLog lim count 0 bufs ctx p"
    by (simp add: mesa_GetDebugMessageLog_def)
  from assms show "mesa_GetDebugMessageLog lim count logSize bufs ctx p \<noteq> Inl GL_INVALID_VALUE"
    by (simp add: mesa_GetDebugMessageLog_def split: prod.splits option.splits)
next
  fix debug
  assume d: "Debug ctx = Some debug \<and> wf_log lim (Log debug)"
  let ?cs = "log_contents lim (Log debug)"
  from assms have "out_messageLog bufs \<noteq> None \<longrightarrow> 0 \<le> logSize" by simp
  with d obtain debug' p' where
    r: "mesa_GetDebugMessageLog lim count logSize bufs ctx p =
       Inr (drained count logSize bufs ?cs, deliver (take (drained count logSize bufs ?cs) ?cs) bufs,
            ctx\<lparr>Debug := Some debug'\<rparr>, p')"
    and c: "log_contents lim (Log debug') = drop (drained count logSize bufs ?cs) ?cs"
    by (blast intro: GetDebugMessageLog_spec)
  from assms have k: "drained count logSize bufs ?cs = min count (NumMessages (Log debug))"
    by (simp add: drained_def length_log_contents)
  have "take (min count (NumMessages (Log debug))) ?cs = take count ?cs"
    "drop (min count (NumMessages (Log debug))) ?cs = drop count ?cs"
    using length_log_contents [of lim "Log debug"] by (simp_all add: min_def)
  with r c assms show "case mesa_GetDebugMessageLog lim count logSize bufs ctx p of
               Inl e \<Rightarrow> False
             | Inr (ret, bufs', ctx', p') \<Rightarrow>
                 ret = min count (NumMessages (Log debug))
               \<and> bufs' = deliver (take count (log_contents lim (Log debug))) bufs
               \<and> out_messageLog bufs' = None
               \<and> (case Debug ctx' of
                     None \<Rightarrow> False
                   | Some debug' \<Rightarrow>
                       log_contents lim (Log debug') = drop count (log_contents lim (Log debug)))"
    unfolding k by (simp add: deliver_def append_out_def)
qed

theorem drain_null_text_pointer_witness:
  "out_messageLog no_text_buffers = None
   \<and> Debug \<lparr>Debug = Some example_logged\<rparr> = Some example_logged
   \<and> wf_log example_limits (Log example_logged)
   \<and> map m_length (log_contents example_limits (Log example_logged)) = [5, 10, 3]
   \<and> (case mesa_GetDebugMessageLog example_limits 2 (- 7) no_text_buffers
             \<lparr>Debug = Some example_logged\<rparr> example_logged_process of
         Inl e \<Rightarrow> False
       | Inr (ret, bufs', ctx', p') \<Rightarrow>
           ret = 2 \<and> out_lengths bufs' = Some [5, 10] \<and> out_ids bufs' = Some [1, 2]
         \<and> out_messageLog bufs' = None)"
proof -
  have null: "out_messageLog no_text_buffers = None" by (simp add: no_text_buffers_def)
  have ctx: "Debug \<lparr>Debug = Some example_logged\<rparr> = Some example_logged" by simp
  have out: "out_lengths (deliver (take 2 (map stored example_messages)) no_text_buffers) = Some [5, 10]"
    "out_ids (deliver (take 2 (map stored example_messages)) no_text_buffers) = Some [1, 2]"
    by (simp_all add: example_messages_def stored_def deliver_def append_out_def no_text_buffers_def)
  from drain_null_text_pointer [OF null, of example_limits 2 "- 7" "\<lparr>Debug = Some example_logged\<rparr>"
      example_logged_process] ctx example_logged_contents(2)
  have "case mesa_GetDebugMessageLog example_limits 2 (- 7) no_text_buffers
             \<lparr>Debug = Some example_logged\<rparr> example_logged_process of
         Inl e \<Rightarrow> False
       | Inr (ret, bufs', ctx', p') \<Rightarrow>
           ret = 2 \<and> out_lengths bufs' = Some [5, 10] \<and> out_ids bufs' = Some [1, 2]
         \<and> out_messageLog bufs' = None"
    using out
    by (auto simp: example_logged_contents(1) example_logged_Num split: sum.splits prod.splits)
  with null ctx example_logged_contents example_logged_lengths(1) show ?thesis
    by (simp only: simp_thms)
qed

lemma strlen_out_of_memory: "int (strlen out_of_memory_chars) + 1 = 31"
  by (simp add: strlen_def out_of_memory_chars_def)

lemma store_fails:
  assumes "malloc_fails p"
  shows "debug_message_store msg source type i severity len buf p =
     (sentinel_message (if oom_msg_id p = 0 then NextDynamicID p else oom_msg_id p),
      p\<lparr>malloc_results := snd (malloc (malloc_results p)),
        oom_msg_id := (if oom_msg_id p = 0 then NextDynamicID p else oom_msg_id p),
        NextDynamicID := (if oom_msg_id p = 0 then NextDynamicID p + 1 else NextDynamicID p)\<rparr>)"
proof -
  obtain b al where m: "malloc (malloc_results p) = (b, al)"
    by (cases "malloc (malloc_results p)")
  with assms have "\<not> b" by (simp add: malloc_fails_def)
  with m show ?thesis
    by (simp add: debug_message_store_def debug_get_id_def sentinel_message_def message_eta
        strlen_out_of_memory)
qed

lemma clear_sentinel:
  "m_message msg = out_of_memory \<Longrightarrow> snd (debug_message_clear msg q) = q"
  by (simp add: debug_message_clear_def)

lemma clear_never_frees_sentinel:
  "out_of_memory \<notin> set (freed_text q) \<Longrightarrow>
     out_of_memory \<notin> set (freed_text (snd (debug_message_clear msg q)))"
  by (simp add: debug_message_clear_def Let_def)

lemma delete_loop_never_frees_sentinel:
  "out_of_memory \<notin> set (freed_text q) \<Longrightarrow>
     out_of_memory \<notin> set (freed_text (snd (debug_delete_messages_loop lim n lg q)))"
proof (induction n arbitrary: lg q)
  case 0
  then show ?case by simp
next
  case (Suc n)
  obtain msg q' where c: "debug_message_clear (Messages lg ! NextMessage lg) q = (msg, q')"
    by (cases "debug_message_clear (Messages lg ! NextMessage lg) q")
  with clear_never_frees_sentinel [OF Suc.prems, of "Messages lg ! NextMessage lg"]
  have "out_of_memory \<notin> set (freed_text q')" by simp
  from Suc.IH [OF this] c show ?case by simp
qed

lemma delete_never_frees_sentinel:
  "out_of_memory \<notin> set (freed_text q) \<Longrightarrow>
     out_of_memory \<notin> set (freed_text (snd (debug_delete_messages lim d n q)))"
proof -
  assume q: "out_of_memory \<notin> set (freed_text q)"
  let ?n = "if n > NumMessages (Log d) then NumMessages (Log d) else n"
  have "snd (debug_delete_messages lim d n q) = snd (debug_delete_messages_loop lim ?n (Log d) q)"
    by (simp add: debug_delete_messages_def Let_def split: prod.splits)
  with delete_loop_never_frees_sentinel [OF q, of lim ?n "Log d"] show ?thesis
    by simp
qed

lemma log_message_fails:
  assumes "wf_log lim (Log debug)" "NumMessages (Log debug) \<noteq> MAX_DEBUG_LOGGED_MESSAGES lim"
    and "malloc_fails p"
    and "debug_log_message lim debug source type i severity len buf p = (debug', p')"
  shows "log_contents lim (Log debug') = log_contents lim (Log debug)
           @ [sentinel_message (if oom_msg_id p = 0 then NextDynamicID p else oom_msg_id p)]"
    and "wf_log lim (Log debug')"
    and "p' = p\<lparr>malloc_results := snd (malloc (malloc_results p)),
        oom_msg_id := (if oom_msg_id p = 0 then NextDynamicID p else oom_msg_id p),
        NextDynamicID := (if oom_msg_id p = 0 then NextDynamicID p + 1 else NextDynamicID p)\<rparr>"
proof -
  let ?e = "(NextMessage (Log debug) + NumMessages (Log debug)) mod MAX_DEBUG_LOGGED_MESSAGES lim"
  let ?id = "if oom_msg_id p = 0 then NextDynamicID p else oom_msg_id p"
  from assms(1,2) have lt: "NumMessages (Log debug) < MAX_DEBUG_LOGGED_MESSAGES lim"
    by (simp add: wf_log_def)
  from assms(2,4) store_fails [OF assms(3), of "Messages (Log debug) ! ?e" source type i severity len buf]
  have d: "debug' = debug\<lparr>Log := (Log debug)\<lparr>Messages := (Messages (Log debug))[?e := sentinel_message ?id],
              NumMessages := NumMessages (Log debug) + 1\<rparr>\<rparr>"
    and p: "p' = p\<lparr>malloc_results := snd (malloc (malloc_results p)),
        oom_msg_id := ?id,
        NextDynamicID := (if oom_msg_id p = 0 then NextDynamicID p + 1 else NextDynamicID p)\<rparr>"
    by (auto simp: debug_log_message_def Let_def)
  from log_contents_append [OF assms(1) lt, of "sentinel_message ?id"] d
  show "log_contents lim (Log debug') = log_contents lim (Log debug) @ [sentinel_message ?id]"
    and "wf_log lim (Log debug')"
    by simp_all
  from p show "p' = p\<lparr>malloc_results := snd (malloc (malloc_results p)),
        oom_msg_id := ?id,
        NextDynamicID := (if oom_msg_id p = 0 then NextDynamicID p + 1 else NextDynamicID p)\<rparr>" .
qed

lemma fresh_ids_add: "fresh_ids k n = n + of_nat k"
  by (induction k arbitrary: n) (simp_all add: debug_get_id_def)

lemma wrapped_NextDynamicID: "NextDynamicID wrapped_process = 0"
  by (simp add: wrapped_process_def fresh_ids_add example_process_def initial_process_def)

text \<open>
  Claim C9: the code does not do what the claim says about the id. \<open>debug_get_id\<close>
  reads the value 0 of a slot as "no id assigned yet", and the 32-bit counter
  \<open>NextDynamicID\<close>, which starts at 1, is 0 again after \<open>2^32 - 1\<close> ids. When that is the
  state in which \<open>malloc\<close> first fails, the out-of-memory message stored by
  \<open>debug_log_message\<close> gets the id 0, the slot \<open>oom_msg_id\<close> still reads as unassigned,
  and the next out-of-memory message gets another id, 1: the two messages, both the
  \<open>out_of_memory\<close> text, do not share one id.
\<close>

theorem oom_sentinel_id_reassigned_after_wrap:
  "NextDynamicID initial_process = 1
   \<and> NextDynamicID wrapped_process = 0
   \<and> map m_message (log_contents example_limits (Log (fst second_oom)))
        = [out_of_memory, out_of_memory]
   \<and> map m_id (log_contents example_limits (Log (fst second_oom))) = [0, 1]"
proof -
  have w: "malloc_fails wrapped_process" "oom_msg_id wrapped_process = 0"
    by (simp_all add: wrapped_process_def malloc_fails_def example_process_def initial_process_def)
  have n: "NumMessages (Log example_debug) \<noteq> MAX_DEBUG_LOGGED_MESSAGES example_limits"
    by (simp add: example_debug_def example_limits_def)
  note one = log_message_fails [OF example_wf_log n w(1) surjective_pairing,
      of MESA_DEBUG_SOURCE_API MESA_DEBUG_TYPE_OTHER 5 MESA_DEBUG_SEVERITY_HIGH 1 "''x''",
      folded first_oom_def]
  from one(1) have c1: "log_contents example_limits (Log (fst first_oom)) = [sentinel_message 0]"
    by (simp add: example_empty w(2) wrapped_NextDynamicID)
  have mr: "malloc_results wrapped_process = [False, False]"
    by (simp add: wrapped_process_def)
  from one(3) have "snd first_oom
      = wrapped_process\<lparr>malloc_results := [False], oom_msg_id := 0, NextDynamicID := 1\<rparr>"
    by (simp add: w(2) wrapped_NextDynamicID mr)
  then have p1: "malloc_fails (snd first_oom)" "oom_msg_id (snd first_oom) = 0"
    "NextDynamicID (snd first_oom) = 1"
    by (simp_all add: malloc_fails_def)
  from c1 have n1: "NumMessages (Log (fst first_oom)) \<noteq> MAX_DEBUG_LOGGED_MESSAGES example_limits"
    using length_log_contents [of example_limits "Log (fst first_oom)"]
    by (simp add: example_limits_def)
  note two = log_message_fails [OF one(2) n1 p1(1) surjective_pairing,
      of MESA_DEBUG_SOURCE_API MESA_DEBUG_TYPE_OTHER 6 MESA_DEBUG_SEVERITY_HIGH 1 "''y''",
      folded second_oom_def]
  from two(1) have "log_contents example_limits (Log (fst second_oom))
      = [sentinel_message 0, sentinel_message 1]"
    by (simp add: c1 p1)
  then show ?thesis
    by (simp add: sentinel_message_def wrapped_NextDynamicID initial_process_def)
qed

lemma pushed_Groups:
  "Groups pushed_debug ! 0 = Suc 0" "Groups pushed_debug ! Suc 0 = Suc 0"
  "GroupStackDepth pushed_debug = Suc 0"
  by (simp_all add: pushed_debug_def debug_push_group_def example_debug_def Let_def)

lemma pushed_read_only: "debug_is_group_read_only pushed_debug"
  by (simp add: debug_is_group_read_only_def pushed_Groups)

lemma failing_process_simps:
  "malloc_results failing_process = [False]"
  "group_heap failing_process (Suc 0) = Some initial_group"
  by (simp_all add: failing_process_def example_process_def initial_process_def)

lemma writable_fails:
  "debug_make_group_writable pushed_debug failing_process
     = (False, pushed_debug, failing_process\<lparr>malloc_results := []\<rparr>)"
  by (simp add: debug_make_group_writable_def pushed_read_only malloc_group_def
      failing_process_simps)

text \<open>
  Claim C1: the code does not do what the claim says. With the top slot sharing the
  group of the slot below and the allocation of the copy failing,
  \<open>debug_make_group_writable\<close> returns false, and
  \<open>debug_set_message_enable_all\<close>, which does not look at that, goes on and writes to
  the shared group: a message that the slot below had disabled is enabled afterwards.
\<close>

theorem set_all_after_failed_copy_writes_shared_group:
  "debug_is_group_read_only pushed_debug
   \<and> fst (debug_make_group_writable pushed_debug failing_process) = False
   \<and> get_below failing_process pushed_debug
        MESA_DEBUG_SOURCE_API MESA_DEBUG_TYPE_ERROR 1 MESA_DEBUG_SEVERITY_LOW = False
   \<and> get_below
        (snd (debug_set_message_enable_all pushed_debug MESA_DEBUG_SOURCE_API
                MESA_DEBUG_TYPE_ERROR MESA_DEBUG_SEVERITY_COUNT True failing_process))
        (fst (debug_set_message_enable_all pushed_debug MESA_DEBUG_SOURCE_API
                MESA_DEBUG_TYPE_ERROR MESA_DEBUG_SEVERITY_COUNT True failing_process))
        MESA_DEBUG_SOURCE_API MESA_DEBUG_TYPE_ERROR 1 MESA_DEBUG_SEVERITY_LOW = True"
proof -
  have before: "get_below failing_process pushed_debug
        MESA_DEBUG_SOURCE_API MESA_DEBUG_TYPE_ERROR 1 MESA_DEBUG_SEVERITY_LOW = False"
    by (simp add: get_below_def pushed_Groups deref_def failing_process_simps initial_group_def
        debug_namespace_get_def debug_namespace_init_def)
  have run: "debug_set_message_enable_all pushed_debug MESA_DEBUG_SOURCE_API
                MESA_DEBUG_TYPE_ERROR MESA_DEBUG_SEVERITY_COUNT True failing_process
     = (pushed_debug,
        store_namespace (failing_process\<lparr>malloc_results := []\<rparr>) 1 0 0
          \<lparr>Elements = [], DefaultState = 15\<rparr>)"
    by (simp add: debug_set_message_enable_all_def writable_fails pushed_Groups
        debug_namespace_set_all_def)
  have after: "get_below
        (store_namespace (failing_process\<lparr>malloc_results := []\<rparr>) 1 0 0
          \<lparr>Elements = [], DefaultState = 15\<rparr>) pushed_debug
        MESA_DEBUG_SOURCE_API MESA_DEBUG_TYPE_ERROR 1 MESA_DEBUG_SEVERITY_LOW = True"
    by (simp add: get_below_def pushed_Groups deref_def failing_process_simps initial_group_def
        store_namespace_def debug_namespace_get_def)
  from before after pushed_read_only show ?thesis
    by (simp add: run writable_fails)
qed

text \<open>
  Claim C5: the code does not do what the claim says when the copy cannot be allocated.
  After a push, with the allocation of the group failing and the one for the element
  succeeding, \<open>debug_set_message_enable\<close> on the top group changes what
  \<open>debug_namespace_get\<close> gives for the group at depth - 1.
\<close>

theorem set_after_failed_copy_changes_group_below:
  "debug_is_group_read_only pushed_debug
   \<and> get_below (failing_process\<lparr>malloc_results := [False, True]\<rparr>) pushed_debug
        MESA_DEBUG_SOURCE_API MESA_DEBUG_TYPE_ERROR 7 MESA_DEBUG_SEVERITY_HIGH = True
   \<and> get_below
        (snd (debug_set_message_enable pushed_debug MESA_DEBUG_SOURCE_API
                MESA_DEBUG_TYPE_ERROR 7 False (failing_process\<lparr>malloc_results := [False, True]\<rparr>)))
        (fst (debug_set_message_enable pushed_debug MESA_DEBUG_SOURCE_API
                MESA_DEBUG_TYPE_ERROR 7 False (failing_process\<lparr>malloc_results := [False, True]\<rparr>)))
        MESA_DEBUG_SOURCE_API MESA_DEBUG_TYPE_ERROR 7 MESA_DEBUG_SEVERITY_HIGH = False"
proof -
  let ?p = "failing_process\<lparr>malloc_results := [False, True]\<rparr>"
  have w: "debug_make_group_writable pushed_debug ?p
     = (False, pushed_debug, failing_process\<lparr>malloc_results := [True]\<rparr>)"
    by (simp add: debug_make_group_writable_def pushed_read_only malloc_group_def)
  have before: "get_below ?p pushed_debug
        MESA_DEBUG_SOURCE_API MESA_DEBUG_TYPE_ERROR 7 MESA_DEBUG_SEVERITY_HIGH = True"
    by (simp add: get_below_def pushed_Groups deref_def failing_process_simps initial_group_def
        debug_namespace_get_def debug_namespace_init_def)
  have run: "debug_set_message_enable pushed_debug MESA_DEBUG_SOURCE_API
                MESA_DEBUG_TYPE_ERROR 7 False ?p
     = (pushed_debug,
        store_namespace (failing_process\<lparr>malloc_results := []\<rparr>) 1 0 0
          \<lparr>Elements = [\<lparr>ID = 7, State = 0\<rparr>], DefaultState = 6\<rparr>)"
    by (simp add: debug_set_message_enable_def w pushed_Groups deref_def failing_process_simps
        initial_group_def debug_namespace_set_def debug_namespace_init_def)
  have after: "get_below
        (store_namespace (failing_process\<lparr>malloc_results := []\<rparr>) 1 0 0
          \<lparr>Elements = [\<lparr>ID = 7, State = 0\<rparr>], DefaultState = 6\<rparr>) pushed_debug
        MESA_DEBUG_SOURCE_API MESA_DEBUG_TYPE_ERROR 7 MESA_DEBUG_SEVERITY_HIGH = False"
    by (simp add: get_below_def pushed_Groups deref_def failing_process_simps initial_group_def
        store_namespace_def debug_namespace_get_def)
  from before after pushed_read_only show ?thesis
    by (simp add: run)
qed

lemma callback_debug_reached:
  "mesa_set_debug_state_int example_limits \<lparr>Debug = None\<rparr> GL_DEBUG_OUTPUT 1 initial_process
     = (True, \<lparr>Debug = Some (example_debug\<lparr>DebugOutput := True\<rparr>)\<rparr>, example_process)"
  "mesa_DebugMessageCallback example_limits 1 0
     \<lparr>Debug = Some (example_debug\<lparr>DebugOutput := True\<rparr>)\<rparr> example_process
     = (\<lparr>Debug = Some callback_debug\<rparr>, example_process)"
  by (simp_all add: mesa_set_debug_state_int_def mesa_DebugMessageCallback_def
      mesa_get_debug_state_def debug_create_example callback_debug_def)






lemma enabled_cong:
  "DebugOutput d' = DebugOutput d \<Longrightarrow>
   Groups d' ! GroupStackDepth d' = Groups d ! GroupStackDepth d \<Longrightarrow>
   group_heap p' = group_heap p \<Longrightarrow>
     debug_is_message_enabled p' d' s t i sv = debug_is_message_enabled p d s t i sv"
  by (simp add: debug_is_message_enabled_def deref_def)
























end
